theory Spec2Isabelle
  imports Complex_Main "HOL-Library.Word" "HOL-Library.AList"
begin

unbundle bit_operations_syntax

section \<open>The Hatchery: simulation engine\<close>

text \<open>
  A shallow embedding of the engine of the game: \<^verbatim>\<open>engine/rng.ts\<close>, \<^verbatim>\<open>engine/state.ts\<close>,
  \<^verbatim>\<open>engine/effects.ts\<close>, \<^verbatim>\<open>engine/generator.ts\<close>, \<^verbatim>\<open>engine/reducer.ts\<close> and the
  delegate rolls of \<^verbatim>\<open>ui/screens/ElectionNight.tsx\<close>.

  Conventions of the model.
  \<^item> A JavaScript \<^verbatim>\<open>number\<close> that holds a resource, a stat, a cycle count or a cursor is an
    \<open>int\<close>: the engine only ever stores integers there (initial values, \<^verbatim>\<open>nextInt\<close> draws,
    integer costs). Where the source multiplies or divides into fractions
    (\<^verbatim>\<open>plausibility * 0.6\<close>, the average loyalty) the model computes in \<open>real\<close>, without
    the rounding of doubles: for integer stats in 0..100 the floors of \<^verbatim>\<open>p * 0.6\<close>,
    \<^verbatim>\<open>i * 0.35\<close>, \<^verbatim>\<open>p / 30\<close> and \<^verbatim>\<open>l / 25\<close> are the same in both, and the float of
    \<^verbatim>\<open>next()\<close> (a 32-bit numerator over 2^32) and its products with the small ranges
    used here are exact in doubles.
  \<^item> The 32-bit operations of the generator (\<^verbatim>\<open>| 0\<close>, \<^verbatim>\<open>>>> 0\<close>, \<^verbatim>\<open>Math.imul\<close>, \<^verbatim>\<open>^\<close>) are
    operations on \<open>32 word\<close>.
  \<^item> A \<^verbatim>\<open>Record<string, T>\<close> is an association list in insertion order, which is the order
    of \<^verbatim>\<open>Object.keys\<close> and \<^verbatim>\<open>Object.values\<close> for the keys the engine creates
    (\<^verbatim>\<open>union_...\<close>, \<^verbatim>\<open>fed_...\<close>); assigning to a key is \<open>AList.update\<close>, which keeps the
    position of a key that is already there and appends a new one.
  \<^item> What the source reads from outside its arguments (\<^verbatim>\<open>Date.now()\<close>, \<^verbatim>\<open>Math.random()\<close>,
    the module-level \<^verbatim>\<open>idCounter\<close>) is a \<open>world\<close> that is passed in and returned.
  \<^item> An id given to the reducer is a key of the record or is absent from it. An id that
    names a property of \<^verbatim>\<open>Object.prototype\<close> (\<^verbatim>\<open>constructor\<close>, \<^verbatim>\<open>toString\<close>), for which
    \<^verbatim>\<open>state.unions[id]\<close> is an inherited function, is outside the reducer as modelled here;
    what the clamping functions do with the NaN it leads to is in the section on C5.
  \<^item> A \<^verbatim>\<open>throw\<close> is the left summand of a sum type. \<^verbatim>\<open>console.log\<close> is left out.
\<close>

subsection \<open>rng.ts: Mulberry32\<close>

datatype error = EmptyPick | WeightMismatch

text \<open>The closure variable \<^verbatim>\<open>a\<close> of \<^verbatim>\<open>createRNG\<close>, as the JavaScript number it holds.\<close>

type_synonym rng = int

definition toUint32 :: "int \<Rightarrow> int" where
  "toUint32 x = uint (word_of_int x :: 32 word)"

definition toInt32 :: "int \<Rightarrow> int" where
  "toInt32 x = sint (word_of_int x :: 32 word)"

definition createRNG :: "int \<Rightarrow> rng" where
  "createRNG seed = toUint32 seed"

text \<open>\<^verbatim>\<open>t\<close> after the two mixing steps of \<^verbatim>\<open>next\<close>, as an unsigned 32-bit value.\<close>

definition mix :: "32 word \<Rightarrow> 32 word" where
  "mix aw =
     (let t = (aw XOR drop_bit 15 aw) * (1 OR aw);
          t2 = t XOR (t + (t XOR drop_bit 7 t) * (61 OR t))
      in t2 XOR drop_bit 14 t2)"

text \<open>\<^verbatim>\<open>next()\<close>: the float in [0,1) and the new value of \<^verbatim>\<open>a\<close>.\<close>

definition next_a :: "rng \<Rightarrow> rng" where
  "next_a a = toInt32 (toInt32 a + 0x6D2B79F5)"

definition next_float :: "rng \<Rightarrow> real \<times> rng" where
  "next_float a =
     (let a2 = next_a a
      in (real_of_int (uint (mix (word_of_int a2))) / 4294967296, a2))"

definition nextInt :: "int \<Rightarrow> int \<Rightarrow> rng \<Rightarrow> int \<times> rng" where
  "nextInt lo hi a =
     (let (r, a2) = next_float a
      in (\<lfloor>r * real_of_int (hi - lo + 1)\<rfloor> + lo, a2))"

definition pick :: "'a list \<Rightarrow> rng \<Rightarrow> error + ('a \<times> rng)" where
  "pick items a =
     (if length items = 0 then Inl EmptyPick
      else (let (i, a2) = nextInt 0 (int (length items) - 1) a
            in Inr (items ! nat i, a2)))"

fun weightedLoop :: "real \<Rightarrow> 'a list \<Rightarrow> real list \<Rightarrow> 'a option" where
  "weightedLoop roll (x # xs) (w # ws) =
     (if roll - w \<le> 0 then Some x else weightedLoop (roll - w) xs ws)"
| "weightedLoop roll _ _ = None"

definition weightedPick :: "'a list \<Rightarrow> real list \<Rightarrow> rng \<Rightarrow> error + ('a \<times> rng)" where
  "weightedPick items weights a =
     (if length items \<noteq> length weights then Inl WeightMismatch
      else if length items = 0 then Inl EmptyPick
      else (let totalWeight = sum_list weights;
                (r, a2) = next_float a
            in case weightedLoop (r * totalWeight) items weights of
                 Some x \<Rightarrow> Inr (x, a2)
               | None \<Rightarrow> Inr (last items, a2)))"

definition getCursor :: "rng \<Rightarrow> int" where
  "getCursor a = a"

subsection \<open>state.ts: the run state\<close>

record Resources =
  paperwork :: int
  patronage :: int
  legitimacy :: int
  auditRisk :: int
  streetHeat :: int

datatype IncubationMode = paperwork_mode | discipline_mode

record UnionEntity =
  union_id :: string
  union_name :: string
  sector :: string
  plausibility :: int
  loyalty :: int
  integrity :: int
  maintenanceCost :: int
  tags :: "string list"
  isIncubated :: bool
  isLicensed :: bool
  isCracked :: bool
  incubationMode :: "IncubationMode option"

datatype Recognition = recognized | unrecognized

record FederationEntity =
  fed_id :: string
  fed_name :: string
  unionIds :: "string list"
  delegates :: int
  recognition :: Recognition
  visibility :: int

datatype GamePhase = menu | playing | event | election | ended

datatype Ending = capture | collapse | whistleblower

record RunState =
  seed :: int
  rngCursor :: int
  cycle :: int
  maxCycles :: int
  phase :: GamePhase
  resources :: Resources
  unions :: "(string \<times> UnionEntity) list"
  federations :: "(string \<times> FederationEntity) list"
  eventHistory :: "string list"
  currentEventId :: "string option"
  unlockedFootnotes :: "string list"
  ending :: "Ending option"
  showTips :: bool
  unionsGeneratedInCycle :: bool

text \<open>
  The world outside the arguments: the readings \<^verbatim>\<open>Date.now()\<close> will give, in call order,
  the values \<^verbatim>\<open>Math.random()\<close> will give, in call order, and \<^verbatim>\<open>idCounter\<close> of generator.ts.
\<close>

record world =
  clock :: "nat \<Rightarrow> nat"
  randoms :: "nat \<Rightarrow> real"
  idCounter :: nat

definition dateNow :: "world \<Rightarrow> nat \<times> world" where
  "dateNow w = (clock w 0, w\<lparr>clock := (\<lambda>k. clock w (Suc k))\<rparr>)"

definition mathRandom :: "world \<Rightarrow> real \<times> world" where
  "mathRandom w = (randoms w 0, w\<lparr>randoms := (\<lambda>k. randoms w (Suc k))\<rparr>)"

definition DEFAULT_RESOURCES :: Resources where
  "DEFAULT_RESOURCES =
     \<lparr>paperwork = 3, patronage = 5, legitimacy = 70, auditRisk = 10, streetHeat = 5\<rparr>"

text \<open>\<^verbatim>\<open>createInitialState(seed?, showTips = false)\<close>\<close>

definition createInitialState :: "int option \<Rightarrow> bool option \<Rightarrow> world \<Rightarrow> RunState \<times> world" where
  "createInitialState seedArg showTipsArg w =
     (let (actualSeed, w2) =
            (case seedArg of
               Some sd \<Rightarrow> (sd, w)
             | None \<Rightarrow> (let (r, w1) = mathRandom w in (\<lfloor>r * 2147483647\<rfloor>, w1)))
      in (\<lparr>seed = actualSeed, rngCursor = actualSeed, cycle = 1, maxCycles = 5,
           phase = menu, resources = DEFAULT_RESOURCES, unions = [], federations = [],
           eventHistory = [], currentEventId = None, unlockedFootnotes = [],
           ending = None,
           showTips = (case showTipsArg of Some b \<Rightarrow> b | None \<Rightarrow> False),
           unionsGeneratedInCycle = False\<rparr>, w2))"

definition getTotalDelegates :: "RunState \<Rightarrow> int" where
  "getTotalDelegates s =
     sum_list (map delegates (filter (\<lambda>f. recognition f = recognized) (map snd (federations s))))"

datatype LoseCondition = lose_legitimacy | lose_audit | lose_street

definition checkLoseCondition :: "RunState \<Rightarrow> LoseCondition option" where
  "checkLoseCondition s =
     (if legitimacy (resources s) \<le> 0 then Some lose_legitimacy
      else if auditRisk (resources s) \<ge> 100 then Some lose_audit
      else if streetHeat (resources s) \<ge> 100 then Some lose_street
      else None)"

definition getLicenseChance :: "UnionEntity \<Rightarrow> int" where
  "getLicenseChance u = min 95 (30 + \<lfloor>real_of_int (plausibility u) * 0.6\<rfloor>)"

definition getCrackRisk :: "UnionEntity \<Rightarrow> int" where
  "getCrackRisk u = max 5 (40 - \<lfloor>real_of_int (integrity u) * 0.35\<rfloor>)"

text \<open>\<^verbatim>\<open>federation.unionIds.map(id => unions[id]).filter(Boolean)\<close>\<close>

definition lookupUnions :: "string list \<Rightarrow> (string \<times> UnionEntity) list \<Rightarrow> UnionEntity list" where
  "lookupUnions ids us = List.map_filter (map_of us) ids"

definition getFederationReliability ::
    "FederationEntity \<Rightarrow> (string \<times> UnionEntity) list \<Rightarrow> real" where
  "getFederationReliability f us =
     (let memberUnions = lookupUnions (unionIds f) us
      in if length memberUnions = 0 then 0
         else (let avgLoyalty =
                     real_of_int (sum_list (map loyalty memberUnions)) / real (length memberUnions)
               in (avgLoyalty / 100) * 2))"

definition getDissolveReward :: "UnionEntity \<Rightarrow> int" where
  "getDissolveReward u = 1 + \<lfloor>real_of_int (plausibility u) / 30\<rfloor>"

definition getReassignReward :: "UnionEntity \<Rightarrow> int" where
  "getReassignReward u = 1 + \<lfloor>real_of_int (loyalty u) / 25\<rfloor>"

subsection \<open>effects.ts: clamping, upkeep, cycle end\<close>

definition clamp :: "int \<Rightarrow> int \<Rightarrow> int \<Rightarrow> int" where
  "clamp v lo hi = max lo (min hi v)"

text \<open>\<^verbatim>\<open>Partial<Resources>\<close>: an absent field is \<open>None\<close>, and \<^verbatim>\<open>?? 0\<close> reads it as 0.\<close>

record ResourceEffects =
  eff_paperwork :: "int option"
  eff_patronage :: "int option"
  eff_legitimacy :: "int option"
  eff_auditRisk :: "int option"
  eff_streetHeat :: "int option"

definition orZero :: "int option \<Rightarrow> int" where
  "orZero x = (case x of Some v \<Rightarrow> v | None \<Rightarrow> 0)"

definition noEffects :: ResourceEffects where
  "noEffects = \<lparr>eff_paperwork = None, eff_patronage = None, eff_legitimacy = None,
                 eff_auditRisk = None, eff_streetHeat = None\<rparr>"

definition applyResourceEffects :: "Resources \<Rightarrow> ResourceEffects \<Rightarrow> Resources" where
  "applyResourceEffects r e =
     \<lparr>paperwork = clamp (paperwork r + orZero (eff_paperwork e)) 0 10,
      patronage = clamp (patronage r + orZero (eff_patronage e)) 0 20,
      legitimacy = clamp (legitimacy r + orZero (eff_legitimacy e)) 0 100,
      auditRisk = clamp (auditRisk r + orZero (eff_auditRisk e)) 0 100,
      streetHeat = clamp (streetHeat r + orZero (eff_streetHeat e)) 0 100\<rparr>"

record UnionStatEffects =
  eff_plausibility :: "int option"
  eff_loyalty :: "int option"
  eff_integrity :: "int option"

definition applyUnionEffects :: "UnionEntity \<Rightarrow> UnionStatEffects \<Rightarrow> UnionEntity" where
  "applyUnionEffects u e =
     u\<lparr>plausibility := clamp (plausibility u + orZero (eff_plausibility e)) 0 100,
       loyalty := clamp (loyalty u + orZero (eff_loyalty e)) 0 100,
       integrity := clamp (integrity u + orZero (eff_integrity e)) 0 100\<rparr>"

definition isShell :: "UnionEntity \<Rightarrow> bool" where
  "isShell u = (''compliant'' \<in> set (tags u) \<or> ''shell'' \<in> set (tags u))"

definition calculateUpkeep :: "RunState \<Rightarrow> ResourceEffects" where
  "calculateUpkeep s =
     (let unionCount = int (length (unions s));
          federationCount = int (length (federations s));
          shellCount = int (length (filter isShell (map snd (unions s))));
          auditIncrease = unionCount div 5 + federationCount + shellCount;
          paperworkRefresh = 6 - paperwork (resources s);
          totalDelegates =
            sum_list (map delegates
              (filter (\<lambda>f. recognition f = recognized) (map snd (federations s))));
          patronageIncome = 7 + totalDelegates * 1;
          streetHeatDecay = (if streetHeat (resources s) > 0 then - 2 else 0);
          legitimacyDecay = (if shellCount > 2 then - (shellCount - 2) else 0)
      in \<lparr>eff_paperwork = Some paperworkRefresh, eff_patronage = Some patronageIncome,
           eff_legitimacy = Some legitimacyDecay, eff_auditRisk = Some auditIncrease,
           eff_streetHeat = Some streetHeatDecay\<rparr>)"

text \<open>
  The loop of \<^verbatim>\<open>processCrackChecks\<close> over \<^verbatim>\<open>Object.keys(unions)\<close>. Each key is visited once
  and the loop writes only to the key it is visiting, so the entry read at a key is the one
  of the input object; the model walks the entries in key order and rebuilds the object.
  The result carries the generator's state after the last roll.
\<close>

fun crackLoop ::
    "(string \<times> UnionEntity) list \<Rightarrow> rng \<Rightarrow> int \<Rightarrow> int
       \<Rightarrow> (string \<times> UnionEntity) list \<times> int \<times> int \<times> rng" where
  "crackLoop [] a legitimacyPenalty auditPenalty = ([], legitimacyPenalty, auditPenalty, a)"
| "crackLoop ((unionId, u) # rest) a legitimacyPenalty auditPenalty =
     (if isCracked u \<or> \<not> isLicensed u then
        (let (rest2, lp, ap, a9) = crackLoop rest a legitimacyPenalty auditPenalty
         in ((unionId, u) # rest2, lp, ap, a9))
      else
        (let crackRisk = getCrackRisk u;
             (roll, a2) = nextInt 1 100 a
         in if roll \<le> crackRisk then
              (let (rest2, lp, ap, a9) =
                     crackLoop rest a2 (legitimacyPenalty - 2) (auditPenalty + 2)
               in ((unionId, u\<lparr>isCracked := True, isLicensed := False\<rparr>) # rest2, lp, ap, a9))
            else
              (let (rest2, lp, ap, a9) = crackLoop rest a2 legitimacyPenalty auditPenalty
               in ((unionId, u) # rest2, lp, ap, a9))))"

text \<open>
  \<^verbatim>\<open>processCrackChecks\<close> returns the unions and the penalties; the generator it created
  from \<^verbatim>\<open>state.rngCursor\<close> is a local and is dropped.
\<close>

definition processCrackChecks ::
    "RunState \<Rightarrow> (string \<times> UnionEntity) list \<times> ResourceEffects" where
  "processCrackChecks s =
     (let (us, legitimacyPenalty, auditPenalty, a9) =
            crackLoop (unions s) (createRNG (rngCursor s)) 0 0
      in (us, noEffects\<lparr>eff_legitimacy := Some legitimacyPenalty,
                         eff_auditRisk := Some auditPenalty\<rparr>))"

text \<open>The cursor \<^verbatim>\<open>rng.getCursor()\<close> would give at the end of \<^verbatim>\<open>processCrackChecks\<close>.\<close>

definition crackCursor :: "RunState \<Rightarrow> int" where
  "crackCursor s =
     (let (us, legitimacyPenalty, auditPenalty, a9) =
            crackLoop (unions s) (createRNG (rngCursor s)) 0 0
      in getCursor a9)"

definition applyCycleEnd :: "RunState \<Rightarrow> RunState" where
  "applyCycleEnd s =
     (let upkeep = calculateUpkeep s;
          (updatedUnions, penalties) = processCrackChecks s;
          combinedEffects =
            upkeep\<lparr>eff_legitimacy :=
                     Some (orZero (eff_legitimacy upkeep) + orZero (eff_legitimacy penalties)),
                   eff_auditRisk :=
                     Some (orZero (eff_auditRisk upkeep) + orZero (eff_auditRisk penalties))\<rparr>;
          newResources = applyResourceEffects (resources s) combinedEffects
      in s\<lparr>unions := updatedUnions, resources := newResources, cycle := cycle s + 1,
           unionsGeneratedInCycle := False\<rparr>)"

subsection \<open>effects.ts on any JavaScript number\<close>

text \<open>
  The definitions above take the numbers to be integers, as the engine's own values are.
  The clamping functions are given here once more on every value a \<^verbatim>\<open>number\<close> can take;
  \<open>applyResourceEffects_on_integers\<close> and \<open>applyUnionEffects_on_integers\<close> below show that
  on integers they are the functions above.
\<close>

text \<open>
  A JavaScript \<^verbatim>\<open>number\<close> with the values that are not real numbers: the two infinities and
  NaN. Rounding and overflow of finite values are left out. Addition gives NaN on a NaN
  operand and on infinities of opposite sign.
\<close>

datatype number = Fin real | PosInf | NegInf | NaN

fun number_add :: "number \<Rightarrow> number \<Rightarrow> number" where
  "number_add NaN y = NaN"
| "number_add x NaN = NaN"
| "number_add PosInf NegInf = NaN"
| "number_add NegInf PosInf = NaN"
| "number_add PosInf y = PosInf"
| "number_add x PosInf = PosInf"
| "number_add NegInf y = NegInf"
| "number_add x NegInf = NegInf"
| "number_add (Fin a) (Fin b) = Fin (a + b)"

text \<open>
  \<^verbatim>\<open>Math.min\<close> and \<^verbatim>\<open>Math.max\<close> return NaN when an argument is NaN; otherwise they compare
  (\<open>number_le\<close> is the order on the values that are not NaN).
\<close>

fun number_le :: "number \<Rightarrow> number \<Rightarrow> bool" where
  "number_le NegInf y = True"
| "number_le x PosInf = True"
| "number_le (Fin a) (Fin b) = (a \<le> b)"
| "number_le x y = False"

definition Math_min :: "number \<Rightarrow> number \<Rightarrow> number" where
  "Math_min a b = (if a = NaN \<or> b = NaN then NaN else if number_le a b then a else b)"

definition Math_max :: "number \<Rightarrow> number \<Rightarrow> number" where
  "Math_max a b = (if a = NaN \<or> b = NaN then NaN else if number_le a b then b else a)"



text \<open>\<^verbatim>\<open>clamp\<close>: \<^verbatim>\<open>Math.max(min, Math.min(max, value))\<close>\<close>

definition clamp_number :: "number \<Rightarrow> number \<Rightarrow> number \<Rightarrow> number" where
  "clamp_number v lo hi = Math_max lo (Math_min hi v)"

text \<open>
  \<^verbatim>\<open>Resources\<close> and \<^verbatim>\<open>Partial<Resources>\<close> with any number in a field. \<^verbatim>\<open>?? 0\<close> replaces only an
  absent field: a NaN delta stays NaN.
\<close>

record Resources_number =
  paperwork_n :: number
  patronage_n :: number
  legitimacy_n :: number
  auditRisk_n :: number
  streetHeat_n :: number

record ResourceEffects_number =
  eff_paperwork_n :: "number option"
  eff_patronage_n :: "number option"
  eff_legitimacy_n :: "number option"
  eff_auditRisk_n :: "number option"
  eff_streetHeat_n :: "number option"

definition orZero_number :: "number option \<Rightarrow> number" where
  "orZero_number x = (case x of Some v \<Rightarrow> v | None \<Rightarrow> Fin 0)"

definition applyResourceEffects_number ::
    "Resources_number \<Rightarrow> ResourceEffects_number \<Rightarrow> Resources_number" where
  "applyResourceEffects_number r e =
     \<lparr>paperwork_n =
        clamp_number (number_add (paperwork_n r) (orZero_number (eff_paperwork_n e))) (Fin 0) (Fin 10),
      patronage_n =
        clamp_number (number_add (patronage_n r) (orZero_number (eff_patronage_n e))) (Fin 0) (Fin 20),
      legitimacy_n =
        clamp_number (number_add (legitimacy_n r) (orZero_number (eff_legitimacy_n e))) (Fin 0) (Fin 100),
      auditRisk_n =
        clamp_number (number_add (auditRisk_n r) (orZero_number (eff_auditRisk_n e))) (Fin 0) (Fin 100),
      streetHeat_n =
        clamp_number (number_add (streetHeat_n r) (orZero_number (eff_streetHeat_n e))) (Fin 0) (Fin 100)\<rparr>"

text \<open>
  The three stats of a union that \<^verbatim>\<open>applyUnionEffects\<close> rewrites (the spread copies every
  other field), and their deltas.
\<close>

record UnionStats_number =
  plausibility_n :: number
  loyalty_n :: number
  integrity_n :: number

record UnionStatEffects_number =
  eff_plausibility_n :: "number option"
  eff_loyalty_n :: "number option"
  eff_integrity_n :: "number option"

definition applyUnionEffects_number ::
    "UnionStats_number \<Rightarrow> UnionStatEffects_number \<Rightarrow> UnionStats_number" where
  "applyUnionEffects_number u e =
     u\<lparr>plausibility_n :=
         clamp_number (number_add (plausibility_n u) (orZero_number (eff_plausibility_n e))) (Fin 0) (Fin 100),
       loyalty_n :=
         clamp_number (number_add (loyalty_n u) (orZero_number (eff_loyalty_n e))) (Fin 0) (Fin 100),
       integrity_n :=
         clamp_number (number_add (integrity_n u) (orZero_number (eff_integrity_n e))) (Fin 0) (Fin 100)\<rparr>"



subsection \<open>generator.ts: unions and federation names\<close>

definition NAME_PARTS_prefixes :: "string list" where
  "NAME_PARTS_prefixes =
     [''United'', ''Democratic'', ''Free'', ''National'', ''Workers'' @ [CHR 0x27],
      ''People'' @ [CHR 0x27] @ ''s'', ''Progressive'', ''Independent'', ''Sovereign'',
      ''Authentic'', ''Reformed'', ''New'']"

definition NAME_PARTS_sectors :: "string list" where
  "NAME_PARTS_sectors =
     [''Textile'', ''Transport'', ''Municipal'', ''Agricultural'', ''Hospitality'',
      ''Construction'', ''Maritime'', ''Printing'', ''Banking'', ''Telecommunications'',
      ''Postal'', ''Railway'']"

definition NAME_PARTS_suffixes :: "string list" where
  "NAME_PARTS_suffixes =
     [''Federation'', ''Syndicate'', ''Brotherhood'', ''Assembly'', ''Council'', ''Alliance'',
      ''Union'', ''Collective'', ''Association'', ''Movement'']"

definition NAME_PARTS_modifiers :: "string list" where
  "NAME_PARTS_modifiers =
     [''of Greater Beirut'', ''of the North'', ''of the South'', ''of the Coast'',
      ''of Mount Lebanon'', ''(Reformed)'', ''(Unified)'', ''(Traditional)'', ''(Modernized)'',
      [], [], []]"

text \<open>The decimal digits of a number, as a template literal prints it.\<close>

definition digit :: "nat \<Rightarrow> char" where
  "digit d = ''0123456789'' ! d"

fun string_of_nat :: "nat \<Rightarrow> string" where
  "string_of_nat n =
     (if n < 10 then [digit n] else string_of_nat (n div 10) @ [digit (n mod 10)])"

declare string_of_nat.simps [simp del]

text \<open>\<^verbatim>\<open>`union_${Date.now()}_${++idCounter}`\<close>\<close>

definition generateId :: "world \<Rightarrow> string \<times> world" where
  "generateId w =
     (let (now, w1) = dateNow w;
          w2 = w1\<lparr>idCounter := idCounter w1 + 1\<rparr>
      in (''union_'' @ string_of_nat now @ ''_'' @ string_of_nat (idCounter w2), w2))"

definition isSpace :: "char \<Rightarrow> bool" where
  "isSpace c = (c = CHR '' '' \<or> c = CHR 0x09 \<or> c = CHR 0x0A \<or> c = CHR 0x0B
                \<or> c = CHR 0x0C \<or> c = CHR 0x0D)"

definition trim :: "string \<Rightarrow> string" where
  "trim str = rev (dropWhile isSpace (rev (dropWhile isSpace str)))"

definition generateUnionName :: "rng \<Rightarrow> error + ((string \<times> string) \<times> rng)" where
  "generateUnionName a =
     (case pick NAME_PARTS_prefixes a of Inl e \<Rightarrow> Inl e | Inr (prefix, a1) \<Rightarrow>
      case pick NAME_PARTS_sectors a1 of Inl e \<Rightarrow> Inl e | Inr (sec, a2) \<Rightarrow>
      case pick NAME_PARTS_suffixes a2 of Inl e \<Rightarrow> Inl e | Inr (suffix, a3) \<Rightarrow>
      case pick NAME_PARTS_modifiers a3 of Inl e \<Rightarrow> Inl e | Inr (modifier, a4) \<Rightarrow>
        (let name = (if modifier \<noteq> []
                     then prefix @ '' '' @ sec @ '' '' @ suffix @ '' '' @ modifier
                     else prefix @ '' '' @ sec @ '' '' @ suffix)
         in Inr ((trim name, sec), a4)))"

text \<open>The stats of \<^verbatim>\<open>generateUnionStats\<close>: plausibility, loyalty, integrity, maintenanceCost, tags.\<close>

type_synonym stats = "int \<times> int \<times> int \<times> int \<times> string list"

definition generateUnionStats :: "rng \<Rightarrow> error + (stats \<times> rng)" where
  "generateUnionStats a =
     (case weightedPick [''shell'', ''captured'', ''authentic'', ''volatile''] [40, 30, 20, 10] a of
        Inl e \<Rightarrow> Inl e
      | Inr (archetype, a1) \<Rightarrow>
          (if archetype = ''shell'' then
             (let (p, a2) = nextInt 70 95 a1;
                  (l, a3) = nextInt 80 100 a2;
                  (i, a4) = nextInt 5 20 a3
              in Inr ((p, l, i, 0, [archetype, ''compliant'']), a4))
           else if archetype = ''captured'' then
             (let (p, a2) = nextInt 50 75 a1;
                  (l, a3) = nextInt 60 85 a2;
                  (i, a4) = nextInt 30 50 a3
              in Inr ((p, l, i, 1, [archetype]), a4))
           else if archetype = ''authentic'' then
             (let (p, a2) = nextInt 30 60 a1;
                  (l, a3) = nextInt 20 50 a2;
                  (i, a4) = nextInt 70 95 a3;
                  (m, a5) = nextInt 3 5 a4
              in Inr ((p, l, i, m, [archetype, ''restless'']), a5))
           else if archetype = ''volatile'' then
             (let (p, a2) = nextInt 20 80 a1;
                  (l, a3) = nextInt 10 40 a2;
                  (i, a4) = nextInt 40 70 a3;
                  (m, a5) = nextInt 2 4 a4
              in Inr ((p, l, i, m, [archetype, ''unpredictable'']), a5))
           else Inr ((50, 50, 50, 2, [archetype]), a1)))"

text \<open>\<^verbatim>\<open>generateUnion(rng)\<close>: the name, then the stats, then the id.\<close>

definition generateUnion :: "rng \<Rightarrow> world \<Rightarrow> error + (UnionEntity \<times> rng \<times> world)" where
  "generateUnion a w =
     (case generateUnionName a of Inl e \<Rightarrow> Inl e | Inr ((name, sec), a1) \<Rightarrow>
      case generateUnionStats a1 of Inl e \<Rightarrow> Inl e | Inr ((p, l, i, m, tgs), a2) \<Rightarrow>
        (let (newId, w1) = generateId w
         in Inr (\<lparr>union_id = newId, union_name = name, sector = sec, plausibility = p,
                  loyalty = l, integrity = i, maintenanceCost = m, tags = tgs,
                  isIncubated = False, isLicensed = False, isCracked = False,
                  incubationMode = None\<rparr>, a2, w1)))"

definition FEDERATION_PREFIXES :: "string list" where
  "FEDERATION_PREFIXES =
     [''General'', ''Central'', ''National'', ''United'', ''Federated'', ''Allied'', ''Combined'']"

definition FEDERATION_SUFFIXES :: "string list" where
  "FEDERATION_SUFFIXES =
     [''Labor Coalition'', ''Workers'' @ [CHR 0x27] @ '' Federation'', ''Trade Council'',
      ''Syndicate Alliance'', ''Union Bloc'']"

text \<open>
  \<^verbatim>\<open>generateFederationName\<close>: \<^verbatim>\<open>rng.next()\<close> is only called when \<^verbatim>\<open>unions.length > 0\<close>
  (the \<^verbatim>\<open>&&\<close> short-circuits).
\<close>

definition generateFederationName :: "rng \<Rightarrow> UnionEntity list \<Rightarrow> error + (string \<times> rng)" where
  "generateFederationName a us =
     (case pick FEDERATION_PREFIXES a of Inl e \<Rightarrow> Inl e | Inr (prefix, a1) \<Rightarrow>
      case pick FEDERATION_SUFFIXES a1 of Inl e \<Rightarrow> Inl e | Inr (suffix, a2) \<Rightarrow>
        (if length us > 0 then
           (let (r, a3) = next_float a2
            in if r > 0.5 then
                 (case pick us a3 of Inl e \<Rightarrow> Inl e | Inr (u, a4) \<Rightarrow>
                    Inr (prefix @ '' '' @ sector u @ '' '' @ suffix, a4))
               else Inr (prefix @ '' '' @ suffix, a3))
         else Inr (prefix @ '' '' @ suffix, a2)))"

subsection \<open>reducer.ts\<close>

datatype GameAction =
    RUN_START "int option" "bool option"
  | RUN_RESET
  | TURN_ADVANCE
  | UNION_GENERATE int
  | UNION_LICENSE string
  | UNION_LICENSE_RESULT string bool
  | UNION_INCUBATE string IncubationMode
  | UNION_DISSOLVE string
  | UNION_REASSIGN string
  | FEDERATION_CREATE "string list"
  | EVENT_DRAW string
  | EVENT_CHOOSE string string ResourceEffects "string list option"
  | EVENT_DISMISS
  | ELECTION_RESOLVE
  | TUTORIAL_DISMISS
  | SET_PHASE GamePhase

text \<open>\<^verbatim>\<open>COSTS\<close>\<close>

definition COSTS_license_paperwork :: int where "COSTS_license_paperwork = 1"
definition COSTS_license_patronage :: int where "COSTS_license_patronage = 1"
definition COSTS_incubate_patronage :: int where "COSTS_incubate_patronage = 2"
definition COSTS_generateUnions_paperwork :: int where "COSTS_generateUnions_paperwork = 1"
definition COSTS_createFederation_paperwork :: int where "COSTS_createFederation_paperwork = 2"
definition COSTS_createFederation_patronage :: int where "COSTS_createFederation_patronage = 3"

type_synonym result = "error + (RunState \<times> world)"

definition doTurnAdvance :: "RunState \<Rightarrow> RunState" where
  "doTurnAdvance s =
     (if cycle s \<ge> maxCycles s then s\<lparr>phase := election\<rparr>
      else (let newState = applyCycleEnd s
            in if checkLoseCondition newState \<noteq> None
               then newState\<lparr>phase := ended, ending := Some collapse\<rparr>
               else newState\<lparr>phase := playing\<rparr>))"

text \<open>The \<^verbatim>\<open>for\<close> loop of \<^verbatim>\<open>UNION_GENERATE\<close>, with the iterations still to run.\<close>

fun generateLoop ::
    "nat \<Rightarrow> (string \<times> UnionEntity) list \<Rightarrow> rng \<Rightarrow> world
       \<Rightarrow> error + ((string \<times> UnionEntity) list \<times> rng \<times> world)" where
  "generateLoop 0 newUnions a w = Inr (newUnions, a, w)"
| "generateLoop (Suc n) newUnions a w =
     (case generateUnion a w of
        Inl e \<Rightarrow> Inl e
      | Inr (u, a1, w1) \<Rightarrow> generateLoop n (AList.update (union_id u) u newUnions) a1 w1)"

definition doUnionGenerate :: "world \<Rightarrow> RunState \<Rightarrow> int \<Rightarrow> result" where
  "doUnionGenerate w s count =
     (if paperwork (resources s) < COSTS_generateUnions_paperwork \<or> unionsGeneratedInCycle s
      then Inr (s, w)
      else (case generateLoop (nat count) (unions s) (createRNG (rngCursor s)) w of
              Inl e \<Rightarrow> Inl e
            | Inr (newUnions, a, w1) \<Rightarrow>
                Inr (s\<lparr>unions := newUnions,
                       rngCursor := getCursor a,
                       unionsGeneratedInCycle := True,
                       resources := applyResourceEffects (resources s)
                         (noEffects\<lparr>eff_paperwork := Some (- COSTS_generateUnions_paperwork)\<rparr>)\<rparr>,
                     w1)))"

definition doUnionLicense :: "RunState \<Rightarrow> string \<Rightarrow> RunState" where
  "doUnionLicense s unionId =
     (case map_of (unions s) unionId of
        None \<Rightarrow> s
      | Some u \<Rightarrow>
          if isLicensed u \<or> isCracked u then s
          else if paperwork (resources s) < COSTS_license_paperwork then s
          else (let a = createRNG (rngCursor s);
                    licenseChance = getLicenseChance u;
                    (roll, a1) = nextInt 1 100 a;
                    success = (roll \<le> licenseChance)
                in if success then
                     s\<lparr>unions := AList.update unionId (u\<lparr>isLicensed := True\<rparr>) (unions s),
                       resources := applyResourceEffects (resources s)
                         (noEffects\<lparr>eff_paperwork := Some (- COSTS_license_paperwork)\<rparr>),
                       rngCursor := getCursor a1\<rparr>
                   else
                     s\<lparr>resources := applyResourceEffects (resources s)
                         (noEffects\<lparr>eff_paperwork := Some (- COSTS_license_paperwork),
                                    eff_auditRisk := Some 3\<rparr>),
                       rngCursor := getCursor a1\<rparr>))"

definition doUnionIncubate :: "RunState \<Rightarrow> string \<Rightarrow> IncubationMode \<Rightarrow> RunState" where
  "doUnionIncubate s unionId mode =
     (case map_of (unions s) unionId of
        None \<Rightarrow> s
      | Some u \<Rightarrow>
          if isIncubated u \<or> isCracked u then s
          else if patronage (resources s) < COSTS_incubate_patronage then s
          else (let updatedUnion =
                      (if mode = paperwork_mode then
                         u\<lparr>isIncubated := True,
                           incubationMode := Some paperwork_mode,
                           plausibility := min 100 (plausibility u + 15),
                           integrity := min 100 (integrity u + 10),
                           loyalty := max 0 (loyalty u - 10)\<rparr>
                       else
                         u\<lparr>isIncubated := True,
                           incubationMode := Some discipline_mode,
                           loyalty := min 100 (loyalty u + 15),
                           integrity := min 100 (integrity u + 10),
                           plausibility := max 0 (plausibility u - 10)\<rparr>);
                    resourceEffects0 =
                      noEffects\<lparr>eff_patronage := Some (- COSTS_incubate_patronage)\<rparr>;
                    resourceEffects =
                      (if mode = paperwork_mode
                       then resourceEffects0\<lparr>eff_streetHeat := Some 2\<rparr>
                       else resourceEffects0)
                in s\<lparr>unions := AList.update unionId updatedUnion (unions s),
                     resources := applyResourceEffects (resources s) resourceEffects\<rparr>))"

definition isInFederation :: "RunState \<Rightarrow> string \<Rightarrow> bool" where
  "isInFederation s unionId =
     list_ex (\<lambda>f. unionId \<in> set (unionIds f)) (map snd (federations s))"

definition doUnionDissolve :: "RunState \<Rightarrow> string \<Rightarrow> RunState" where
  "doUnionDissolve s unionId =
     (case map_of (unions s) unionId of
        None \<Rightarrow> s
      | Some u \<Rightarrow>
          if isInFederation s unionId then s
          else (let paperworkReward = getDissolveReward u;
                    remainingUnions = AList.delete unionId (unions s)
                in s\<lparr>unions := remainingUnions,
                     resources := applyResourceEffects (resources s)
                       (noEffects\<lparr>eff_paperwork := Some paperworkReward\<rparr>)\<rparr>))"

definition doUnionReassign :: "RunState \<Rightarrow> string \<Rightarrow> RunState" where
  "doUnionReassign s unionId =
     (case map_of (unions s) unionId of
        None \<Rightarrow> s
      | Some u \<Rightarrow>
          if isInFederation s unionId then s
          else (let patronageReward = getReassignReward u;
                    remainingUnions = AList.delete unionId (unions s)
                in s\<lparr>unions := remainingUnions,
                     resources := applyResourceEffects (resources s)
                       (noEffects\<lparr>eff_patronage := Some patronageReward\<rparr>)\<rparr>))"

text \<open>\<^verbatim>\<open>Object.values(state.federations).flatMap(f => f.unionIds)\<close>\<close>

definition existingFederatedUnions :: "RunState \<Rightarrow> string list" where
  "existingFederatedUnions s = concat (map (\<lambda>f. unionIds f) (map snd (federations s)))"

definition doFederationCreate :: "world \<Rightarrow> RunState \<Rightarrow> string list \<Rightarrow> result" where
  "doFederationCreate w s ids =
     (if length ids < 2 then Inr (s, w)
      else (let us = lookupUnions ids (unions s)
            in if length us \<noteq> length ids then Inr (s, w)
               else if \<not> list_all isLicensed us then Inr (s, w)
               else if list_ex (\<lambda>i. i \<in> set (existingFederatedUnions s)) ids then Inr (s, w)
               else if paperwork (resources s) < COSTS_createFederation_paperwork
                       \<or> patronage (resources s) < COSTS_createFederation_patronage
                    then Inr (s, w)
               else (case generateFederationName (createRNG (rngCursor s)) us of
                       Inl e \<Rightarrow> Inl e
                     | Inr (name, a) \<Rightarrow>
                         (let (now, w1) = dateNow w;
                              federation =
                                \<lparr>fed_id = ''fed_'' @ string_of_nat now, fed_name = name,
                                 unionIds = ids, delegates = 2, recognition = recognized,
                                 visibility = 50\<rparr>
                          in Inr (s\<lparr>federations :=
                                       AList.update (fed_id federation) federation (federations s),
                                     rngCursor := getCursor a,
                                     resources := applyResourceEffects (resources s)
                                       (noEffects\<lparr>eff_paperwork :=
                                                     Some (- COSTS_createFederation_paperwork),
                                                   eff_patronage :=
                                                     Some (- COSTS_createFederation_patronage),
                                                   eff_auditRisk := Some 5\<rparr>)\<rparr>,
                                  w1)))))"

text \<open>\<^verbatim>\<open>[...new Set(xs)]\<close>: the first occurrence of each element, in order.\<close>

definition setOrder :: "'a list \<Rightarrow> 'a list" where
  "setOrder xs = fold (\<lambda>x acc. if x \<in> set acc then acc else acc @ [x]) xs []"

definition doEventChoose ::
    "RunState \<Rightarrow> string \<Rightarrow> ResourceEffects \<Rightarrow> string list option \<Rightarrow> RunState" where
  "doEventChoose s eventId effects unlocks =
     (let newResources = applyResourceEffects (resources s) effects;
          newUnlocks = (case unlocks of
                          Some ul \<Rightarrow> setOrder (unlockedFootnotes s @ ul)
                        | None \<Rightarrow> unlockedFootnotes s);
          intermediateState =
            s\<lparr>resources := newResources,
              unlockedFootnotes := newUnlocks,
              eventHistory := eventHistory s @ [eventId],
              currentEventId := None\<rparr>
      in if checkLoseCondition intermediateState \<noteq> None
         then intermediateState\<lparr>phase := ended, ending := Some collapse\<rparr>
         else if cycle intermediateState \<ge> maxCycles intermediateState
         then intermediateState\<lparr>phase := election\<rparr>
         else (let intermediateState2 = applyCycleEnd intermediateState
               in if checkLoseCondition intermediateState2 \<noteq> None
                  then intermediateState2\<lparr>phase := ended, ending := Some collapse\<rparr>
                  else intermediateState2\<lparr>phase := playing\<rparr>))"

definition doElectionResolve :: "RunState \<Rightarrow> RunState" where
  "doElectionResolve s =
     (let totalDelegates =
            sum_list (map delegates
              (filter (\<lambda>f. recognition f = recognized) (map snd (federations s))));
          theEnding = (if totalDelegates \<ge> 6 then capture else collapse)
      in s\<lparr>phase := ended, ending := Some theEnding\<rparr>)"

fun gameReducer :: "world \<Rightarrow> RunState \<Rightarrow> GameAction \<Rightarrow> result" where
  "gameReducer w s (RUN_START seedArg showTipsArg) =
     (let (initialState, w1) = createInitialState seedArg showTipsArg w
      in Inr (initialState\<lparr>phase := playing\<rparr>, w1))"
| "gameReducer w s RUN_RESET = Inr (createInitialState None None w)"
| "gameReducer w s TURN_ADVANCE = Inr (doTurnAdvance s, w)"
| "gameReducer w s (UNION_GENERATE count) = doUnionGenerate w s count"
| "gameReducer w s (UNION_LICENSE unionId) = Inr (doUnionLicense s unionId, w)"
| "gameReducer w s (UNION_INCUBATE unionId mode) = Inr (doUnionIncubate s unionId mode, w)"
| "gameReducer w s (UNION_DISSOLVE unionId) = Inr (doUnionDissolve s unionId, w)"
| "gameReducer w s (UNION_REASSIGN unionId) = Inr (doUnionReassign s unionId, w)"
| "gameReducer w s (FEDERATION_CREATE ids) = doFederationCreate w s ids"
| "gameReducer w s (EVENT_DRAW eventId) =
     Inr (s\<lparr>phase := event, currentEventId := Some eventId\<rparr>, w)"
| "gameReducer w s (EVENT_CHOOSE eventId choiceId effects unlocks) =
     Inr (doEventChoose s eventId effects unlocks, w)"
| "gameReducer w s EVENT_DISMISS = Inr (s\<lparr>phase := playing, currentEventId := None\<rparr>, w)"
| "gameReducer w s ELECTION_RESOLVE = Inr (doElectionResolve s, w)"
| "gameReducer w s (SET_PHASE p) = Inr (s\<lparr>phase := p\<rparr>, w)"
| "gameReducer w s TUTORIAL_DISMISS = Inr (s\<lparr>showTips := False\<rparr>, w)"
| "gameReducer w s (UNION_LICENSE_RESULT unionId success) = Inr (s, w)"

subsection \<open>ElectionNight.tsx: the delegate rolls\<close>

text \<open>
  The body of the effect that rolls the delegates: for each recognized federation, in
  \<^verbatim>\<open>Object.values\<close> order, two draws against the loyalty percentage; the result is the list
  of \<^verbatim>\<open>secured\<close> counts, one per recognized federation. The percentage is computed in exact
  arithmetic. In doubles \<^verbatim>\<open>((avg / 100) * 2 / 2) * 100\<close> can fall just below an integer
  average (at 29, 57 and 58), where a roll equal to the average is then lost; at an average
  of 0 every intermediate value is 0 in both.
\<close>

fun rollFederations ::
    "FederationEntity list \<Rightarrow> (string \<times> UnionEntity) list \<Rightarrow> rng \<Rightarrow> nat list" where
  "rollFederations [] us a = []"
| "rollFederations (f # fs) us a =
     (if recognition f \<noteq> recognized then rollFederations fs us a
      else (let reliability = getFederationReliability f us;
                loyaltyPercent = (reliability / 2) * 100;
                (roll1, a1) = nextInt 1 100 a;
                (roll2, a2) = nextInt 1 100 a1;
                secured = (if real_of_int roll1 \<le> loyaltyPercent then 1 else 0)
                        + (if real_of_int roll2 \<le> loyaltyPercent then 1 else 0)
            in secured # rollFederations fs us a2))"

definition DELEGATE_THRESHOLD :: nat where
  "DELEGATE_THRESHOLD = 6"

definition securedDelegates :: "RunState \<Rightarrow> nat" where
  "securedDelegates s =
     sum_list (rollFederations (map snd (federations s)) (unions s)
                 (createRNG (rngCursor s + 999)))"

section \<open>Properties\<close>

subsection \<open>Auxiliary definitions\<close>

text \<open>The bounds of the data model (\<^verbatim>\<open>CLAMPS\<close>) as a predicate on resources.\<close>

definition resourcesInBounds :: "Resources \<Rightarrow> bool" where
  "resourcesInBounds r =
     (0 \<le> paperwork r \<and> paperwork r \<le> 10 \<and> 0 \<le> patronage r \<and> patronage r \<le> 20
      \<and> 0 \<le> legitimacy r \<and> legitimacy r \<le> 100 \<and> 0 \<le> auditRisk r \<and> auditRisk r \<le> 100
      \<and> 0 \<le> streetHeat r \<and> streetHeat r \<le> 100)"

text \<open>Concrete inputs at which the theorems below are instantiated.\<close>

definition world0 :: world where
  "world0 = \<lparr>clock = (\<lambda>k. 1700000000000 + k), randoms = (\<lambda>k. 0), idCounter = 0\<rparr>"

definition shellUnion :: "string \<Rightarrow> UnionEntity" where
  "shellUnion i =
     \<lparr>union_id = i, union_name = ''United Textile Union'', sector = ''Textile'',
      plausibility = 20, loyalty = 0, integrity = 10, maintenanceCost = 0,
      tags = [''shell'', ''compliant''], isIncubated = False, isLicensed = False,
      isCracked = False, incubationMode = None\<rparr>"

definition baseState :: RunState where
  "baseState =
     \<lparr>seed = 42, rngCursor = 42, cycle = 1, maxCycles = 5, phase = playing,
      resources = DEFAULT_RESOURCES, unions = [], federations = [], eventHistory = [],
      currentEventId = None, unlockedFootnotes = [], ending = None, showTips = False,
      unionsGeneratedInCycle = False\<rparr>"

definition licenseState :: RunState where
  "licenseState = baseState\<lparr>unions := [(''union_1_1'', shellUnion ''union_1_1'')]\<rparr>"

definition lastCycleState :: RunState where
  "lastCycleState = licenseState\<lparr>cycle := 5\<rparr>"

definition crackState :: RunState where
  "crackState =
     baseState\<lparr>unions := [(''union_1_1'', (shellUnion ''union_1_1'')\<lparr>isLicensed := True\<rparr>)]\<rparr>"

definition zeroFederation :: "string \<Rightarrow> string list \<Rightarrow> FederationEntity" where
  "zeroFederation i ids =
     \<lparr>fed_id = i, fed_name = ''General Labor Coalition'', unionIds = ids, delegates = 2,
      recognition = recognized, visibility = 50\<rparr>"

definition licensedShell :: "string \<Rightarrow> string \<times> UnionEntity" where
  "licensedShell i = (i, (shellUnion i)\<lparr>isLicensed := True\<rparr>)"

text \<open>Six recognized federations of two licensed unions each, every union of loyalty 0.\<close>

definition electionState :: RunState where
  "electionState =
     baseState\<lparr>cycle := 5, phase := election,
       unions := map licensedShell
         [''u01'', ''u02'', ''u03'', ''u04'', ''u05'', ''u06'',
          ''u07'', ''u08'', ''u09'', ''u10'', ''u11'', ''u12''],
       federations :=
         [(''fed_1'', zeroFederation ''fed_1'' [''u01'', ''u02'']),
          (''fed_2'', zeroFederation ''fed_2'' [''u03'', ''u04'']),
          (''fed_3'', zeroFederation ''fed_3'' [''u05'', ''u06'']),
          (''fed_4'', zeroFederation ''fed_4'' [''u07'', ''u08'']),
          (''fed_5'', zeroFederation ''fed_5'' [''u09'', ''u10'']),
          (''fed_6'', zeroFederation ''fed_6'' [''u11'', ''u12''])]\<rparr>"

text \<open>The state and the world of a result, and the ids it holds.\<close>

definition resultState :: "result \<Rightarrow> RunState option" where
  "resultState r = (case r of Inr (s, w) \<Rightarrow> Some s | Inl e \<Rightarrow> None)"

definition generatedIds :: "result \<Rightarrow> string list" where
  "generatedIds r = (case resultState r of Some s \<Rightarrow> map fst (unions s) | None \<Rightarrow> [])"

definition federationIds :: "result \<Rightarrow> string list" where
  "federationIds r = (case resultState r of Some s \<Rightarrow> map fst (federations s) | None \<Rightarrow> [])"

definition world1 :: world where
  "world1 = \<lparr>clock = (\<lambda>k. 1700000000001 + k), randoms = (\<lambda>k. 0), idCounter = 1\<rparr>"

definition resultWorld :: "result \<Rightarrow> world option" where
  "resultWorld r = (case r of Inr (s, w) \<Rightarrow> Some w | Inl e \<Rightarrow> None)"

text \<open>
  The condition under which \<^verbatim>\<open>FEDERATION_CREATE\<close> creates a federation, in the words of
  section 4.5 less the distinctness of the ids; \<open>canFederate_guard\<close> below compares it with
  the guards of the source. The cost it charges and the federation it builds.
\<close>

definition canFederate :: "RunState \<Rightarrow> string list \<Rightarrow> bool" where
  "canFederate s ids =
     (2 \<le> length ids
      \<and> list_all (\<lambda>i. case map_of (unions s) i of Some u \<Rightarrow> isLicensed u | None \<Rightarrow> False) ids
      \<and> list_all (\<lambda>i. i \<notin> set (existingFederatedUnions s)) ids
      \<and> 2 \<le> paperwork (resources s) \<and> 3 \<le> patronage (resources s))"

definition federationCost :: ResourceEffects where
  "federationCost = noEffects\<lparr>eff_paperwork := Some (- 2), eff_patronage := Some (- 3),
                              eff_auditRisk := Some 5\<rparr>"

definition newFederation :: "world \<Rightarrow> string \<Rightarrow> string list \<Rightarrow> FederationEntity" where
  "newFederation w name ids =
     \<lparr>fed_id = ''fed_'' @ string_of_nat (clock w 0), fed_name = name, unionIds = ids,
      delegates = 2, recognition = recognized, visibility = 50\<rparr>"

definition fedState :: RunState where
  "fedState = baseState\<lparr>unions := map licensedShell [''u01'', ''u02'']\<rparr>"

text \<open>One licensed union, to be named twice.\<close>

definition dupState :: RunState where
  "dupState = baseState\<lparr>unions := [licensedShell ''u01'']\<rparr>"

text \<open>The actions whose case of the reducer writes the phase; a result with its phase replaced.\<close>

fun setsPhase :: "GameAction \<Rightarrow> bool" where
  "setsPhase (RUN_START seedArg showTipsArg) = True"
| "setsPhase RUN_RESET = True"
| "setsPhase TURN_ADVANCE = True"
| "setsPhase (EVENT_DRAW eventId) = True"
| "setsPhase (EVENT_CHOOSE eventId choiceId effects unlocks) = True"
| "setsPhase EVENT_DISMISS = True"
| "setsPhase ELECTION_RESOLVE = True"
| "setsPhase (SET_PHASE p) = True"
| "setsPhase a = False"

definition withPhase :: "GamePhase \<Rightarrow> result \<Rightarrow> result" where
  "withPhase p r = (case r of Inl e \<Rightarrow> Inl e | Inr (s, w) \<Rightarrow> Inr (s\<lparr>phase := p\<rparr>, w))"

definition resultPhase :: "result \<Rightarrow> GamePhase option" where
  "resultPhase r = map_option phase (resultState r)"

definition endedState :: RunState where
  "endedState = baseState\<lparr>phase := ended, ending := Some collapse\<rparr>"

text \<open>
  The actions that replace the run by a fresh one, and the actions that close a cycle (those
  whose case of the reducer reaches \<^verbatim>\<open>applyCycleEnd\<close>), with the condition under which they do.
\<close>

fun restartsRun :: "GameAction \<Rightarrow> bool" where
  "restartsRun (RUN_START seedArg showTipsArg) = True"
| "restartsRun RUN_RESET = True"
| "restartsRun a = False"

fun cycleEnds :: "RunState \<Rightarrow> GameAction \<Rightarrow> bool" where
  "cycleEnds s TURN_ADVANCE = (cycle s < maxCycles s)"
| "cycleEnds s (EVENT_CHOOSE eventId choiceId effects unlocks) =
     (cycle s < maxCycles s
      \<and> checkLoseCondition (s\<lparr>resources := applyResourceEffects (resources s) effects\<rparr>) = None)"
| "cycleEnds s a = False"

definition resultFlag :: "result \<Rightarrow> bool option" where
  "resultFlag r = map_option unionsGeneratedInCycle (resultState r)"

definition generatedState :: RunState where
  "generatedState = licenseState\<lparr>unionsGeneratedInCycle := True\<rparr>"

text \<open>The unions that \<^verbatim>\<open>processCrackChecks\<close> rolls for.\<close>

definition crackEligible :: "string \<times> UnionEntity \<Rightarrow> bool" where
  "crackEligible e = (isLicensed (snd e) \<and> \<not> isCracked (snd e))"

text \<open>
  The states a run can be in: those of \<^verbatim>\<open>createInitialState\<close> and those the reducer returns
  from them.
\<close>

inductive reachable :: "RunState \<Rightarrow> bool" where
  start: "reachable (fst (createInitialState seedArg showTipsArg w))"
| step: "reachable s \<Longrightarrow> gameReducer w s a = Inr (s2, w2) \<Longrightarrow> reachable s2"

text \<open>
  Integer resources, effects and stats as JavaScript numbers; a number within a range
  (NaN and the infinities are in none); no effects at all.
\<close>

definition toNumber :: "int \<Rightarrow> number" where
  "toNumber i = Fin (real_of_int i)"

definition resources_number :: "Resources \<Rightarrow> Resources_number" where
  "resources_number r =
     \<lparr>paperwork_n = toNumber (paperwork r), patronage_n = toNumber (patronage r),
      legitimacy_n = toNumber (legitimacy r), auditRisk_n = toNumber (auditRisk r),
      streetHeat_n = toNumber (streetHeat r)\<rparr>"

definition effects_number :: "ResourceEffects \<Rightarrow> ResourceEffects_number" where
  "effects_number e =
     \<lparr>eff_paperwork_n = map_option toNumber (eff_paperwork e),
      eff_patronage_n = map_option toNumber (eff_patronage e),
      eff_legitimacy_n = map_option toNumber (eff_legitimacy e),
      eff_auditRisk_n = map_option toNumber (eff_auditRisk e),
      eff_streetHeat_n = map_option toNumber (eff_streetHeat e)\<rparr>"

definition stats_number :: "UnionEntity \<Rightarrow> UnionStats_number" where
  "stats_number u =
     \<lparr>plausibility_n = toNumber (plausibility u), loyalty_n = toNumber (loyalty u),
      integrity_n = toNumber (integrity u)\<rparr>"

definition statEffects_number :: "UnionStatEffects \<Rightarrow> UnionStatEffects_number" where
  "statEffects_number e =
     \<lparr>eff_plausibility_n = map_option toNumber (eff_plausibility e),
      eff_loyalty_n = map_option toNumber (eff_loyalty e),
      eff_integrity_n = map_option toNumber (eff_integrity e)\<rparr>"

definition inRange :: "number \<Rightarrow> real \<Rightarrow> real \<Rightarrow> bool" where
  "inRange v lo hi = (case v of Fin x \<Rightarrow> lo \<le> x \<and> x \<le> hi | PosInf \<Rightarrow> False
                               | NegInf \<Rightarrow> False | NaN \<Rightarrow> False)"


text \<open>
  \<^verbatim>\<open>intermediateState\<close> of \<^verbatim>\<open>EVENT_CHOOSE\<close>: the state after the choice's effects, before
  the turn advances.
\<close>

definition afterChoice ::
    "RunState \<Rightarrow> string \<Rightarrow> ResourceEffects \<Rightarrow> string list option \<Rightarrow> RunState" where
  "afterChoice s eventId effects unlocks =
     s\<lparr>resources := applyResourceEffects (resources s) effects,
       unlockedFootnotes := (case unlocks of
                               Some ul \<Rightarrow> setOrder (unlockedFootnotes s @ ul)
                             | None \<Rightarrow> unlockedFootnotes s),
       eventHistory := eventHistory s @ [eventId],
       currentEventId := None\<rparr>"

subsection \<open>Arithmetic of the generator and of the formulas\<close>

lemma floor_06: "\<lfloor>real_of_int p * 0.6\<rfloor> = (p * 3) div 5"
proof -
  have "real_of_int p * 0.6 = real_of_int (p * 3) / real_of_int 5" by simp
  then show ?thesis by (simp only: floor_divide_of_int_eq)
qed

lemma floor_035: "\<lfloor>real_of_int p * 0.35\<rfloor> = (p * 7) div 20"
proof -
  have "real_of_int p * 0.35 = real_of_int (p * 7) / real_of_int 20" by simp
  then show ?thesis by (simp only: floor_divide_of_int_eq)
qed

lemma next_float_range: "0 \<le> fst (next_float a) \<and> fst (next_float a) < 1"
proof -
  define n where "n = uint (mix (word_of_int (next_a a)))"
  have "0 \<le> n" and "n < 4294967296"
    using uint_bounded [of "mix (word_of_int (next_a a))"] by (simp_all add: n_def)
  then have "0 \<le> real_of_int n" and "real_of_int n < 4294967296" by linarith+
  then have "0 \<le> real_of_int n / 4294967296 \<and> real_of_int n / 4294967296 < 1" by simp
  moreover have "fst (next_float a) = real_of_int n / 4294967296"
    unfolding next_float_def Let_def n_def by (simp only: fst_conv)
  ultimately show ?thesis by (simp only:)
qed

lemma next_float_snd: "snd (next_float a) = next_a a"
  by (simp add: next_float_def Let_def)

lemma nextInt_snd: "snd (nextInt lo hi a) = next_a a"
  by (simp add: nextInt_def next_float_def Let_def)

lemma nextInt_fst:
  "fst (nextInt lo hi a) = \<lfloor>fst (next_float a) * real_of_int (hi - lo + 1)\<rfloor> + lo"
  by (simp add: nextInt_def split_def Let_def)

lemma nextInt_lower: "lo \<le> hi \<Longrightarrow> lo \<le> fst (nextInt lo hi a)"
proof -
  assume "lo \<le> hi"
  then have "0 \<le> real_of_int (hi - lo + 1)" by simp
  then have "0 \<le> fst (next_float a) * real_of_int (hi - lo + 1)"
    using next_float_range [of a] by (intro mult_nonneg_nonneg) auto
  then have "0 \<le> \<lfloor>fst (next_float a) * real_of_int (hi - lo + 1)\<rfloor>"
    by (simp only: zero_le_floor)
  then show ?thesis unfolding nextInt_fst by linarith
qed

lemma nextInt_upper: "lo \<le> hi \<Longrightarrow> fst (nextInt lo hi a) \<le> hi"
proof -
  assume h: "lo \<le> hi"
  then have pos: "0 < real_of_int (hi - lo + 1)" by simp
  have "fst (next_float a) * real_of_int (hi - lo + 1) < 1 * real_of_int (hi - lo + 1)"
    using next_float_range [of a] pos by (intro mult_strict_right_mono) auto
  then have "fst (next_float a) * real_of_int (hi - lo + 1) < real_of_int (hi - lo + 1)"
    by (simp only: mult_1)
  then have "\<lfloor>fst (next_float a) * real_of_int (hi - lo + 1)\<rfloor> < hi - lo + 1"
    by (simp only: floor_less_iff)
  then show ?thesis unfolding nextInt_fst by linarith
qed

lemma roll_42: "nextInt 1 100 (createRNG 42) = (61, 1831565855)"
  by code_simp

lemma applyResourceEffects_inBounds: "resourcesInBounds (applyResourceEffects r e)"
  by (simp add: resourcesInBounds_def applyResourceEffects_def clamp_def)

subsection \<open>The generator never throws; the guards of the reducer\<close>

lemma pick_Inr: "items \<noteq> [] \<Longrightarrow> \<exists>x. pick items a = Inr (x, next_a a)"
  using nextInt_snd [of 0 "int (length items) - 1" a]
  by (cases "nextInt 0 (int (length items) - 1) a") (simp add: pick_def)

lemma weightedPick_Inr:
  "length items = length weights \<Longrightarrow> items \<noteq> [] \<Longrightarrow>
     \<exists>x. weightedPick items weights a = Inr (x, next_a a)"
  using next_float_snd [of a]
  by (cases "next_float a") (auto simp add: weightedPick_def Let_def split: option.splits)

lemma generateUnionName_Inr: "\<exists>r a2. generateUnionName a = Inr (r, a2)"
proof -
  obtain x1 where p1: "pick NAME_PARTS_prefixes a = Inr (x1, next_a a)"
    using pick_Inr [of NAME_PARTS_prefixes a] by (auto simp add: NAME_PARTS_prefixes_def)
  obtain x2 where p2: "pick NAME_PARTS_sectors (next_a a) = Inr (x2, next_a (next_a a))"
    using pick_Inr [of NAME_PARTS_sectors "next_a a"] by (auto simp add: NAME_PARTS_sectors_def)
  obtain x3 where p3:
    "pick NAME_PARTS_suffixes (next_a (next_a a)) = Inr (x3, next_a (next_a (next_a a)))"
    using pick_Inr [of NAME_PARTS_suffixes "next_a (next_a a)"]
    by (auto simp add: NAME_PARTS_suffixes_def)
  obtain x4 where p4:
    "pick NAME_PARTS_modifiers (next_a (next_a (next_a a)))
       = Inr (x4, next_a (next_a (next_a (next_a a))))"
    using pick_Inr [of NAME_PARTS_modifiers "next_a (next_a (next_a a))"]
    by (auto simp add: NAME_PARTS_modifiers_def)
  show ?thesis by (simp add: generateUnionName_def p1 p2 p3 p4 Let_def)
qed

lemma generateUnionStats_Inr: "\<exists>r a2. generateUnionStats a = Inr (r, a2)"
proof -
  obtain x where p:
    "weightedPick [''shell'', ''captured'', ''authentic'', ''volatile''] [40, 30, 20, 10] a
       = Inr (x, next_a a)"
    using weightedPick_Inr
      [of "[''shell'', ''captured'', ''authentic'', ''volatile'']" "[40, 30, 20, 10]" a]
    by auto
  show ?thesis unfolding generateUnionStats_def p
    by (simp add: split_def Let_def)
qed

lemma generateUnion_Inr:
  "\<exists>u a2. generateUnion a w = Inr (u, a2, snd (generateId w)) \<and> union_id u = fst (generateId w)"
proof -
  obtain name sec a1 where n: "generateUnionName a = Inr ((name, sec), a1)"
    using generateUnionName_Inr [of a] by auto
  obtain p l i m tgs a2 where st: "generateUnionStats a1 = Inr ((p, l, i, m, tgs), a2)"
    using generateUnionStats_Inr [of a1] by (metis prod_cases5)
  show ?thesis by (simp add: generateUnion_def n st split_def Let_def)
qed

lemma generateLoop_Inr: "\<exists>us2 a2 w2. generateLoop n us a w = Inr (us2, a2, w2)"
proof (induction n arbitrary: us a w)
  case 0
  show ?case by simp
next
  case (Suc n)
  obtain u a1 where g: "generateUnion a w = Inr (u, a1, snd (generateId w))"
    using generateUnion_Inr [of a w] by auto
  show ?case using Suc [of "AList.update (union_id u) u us" a1 "snd (generateId w)"]
    by (simp add: g)
qed

lemma generateFederationName_Inr: "\<exists>name a2. generateFederationName a us = Inr (name, a2)"
proof -
  obtain x1 where p1: "pick FEDERATION_PREFIXES a = Inr (x1, next_a a)"
    using pick_Inr [of FEDERATION_PREFIXES a] by (auto simp add: FEDERATION_PREFIXES_def)
  obtain x2 where p2: "pick FEDERATION_SUFFIXES (next_a a) = Inr (x2, next_a (next_a a))"
    using pick_Inr [of FEDERATION_SUFFIXES "next_a a"] by (auto simp add: FEDERATION_SUFFIXES_def)
  show ?thesis
  proof (cases "us = []")
    case True
    then show ?thesis by (simp add: generateFederationName_def p1 p2)
  next
    case False
    obtain x3 where p3:
      "pick us (snd (next_float (next_a (next_a a))))
         = Inr (x3, next_a (snd (next_float (next_a (next_a a)))))"
      using pick_Inr [OF False] by auto
    show ?thesis using False
      by (simp add: generateFederationName_def p1 p2 p3 split_def Let_def)
  qed
qed

lemma generateId_world0: "generateId world0 = (''union_1700000000000_1'', world1)"
  by (simp add: generateId_def dateNow_def world0_def world1_def Let_def string_of_nat.simps digit_def)

lemma generateId_world1:
  "fst (generateId world1) = ''union_1700000000001_2''"
  by (simp add: generateId_def dateNow_def world1_def Let_def string_of_nat.simps digit_def)

lemma map_filter_length_le: "length (List.map_filter f xs) \<le> length xs"
  by (induction xs) (auto simp add: map_filter_simps split: option.splits)

lemma lookupUnions_length:
  "length (lookupUnions ids us) = length ids \<longleftrightarrow> list_all (\<lambda>i. map_of us i \<noteq> None) ids"
proof (induction ids)
  case Nil
  show ?case by (simp add: lookupUnions_def map_filter_simps)
next
  case (Cons i ids)
  have "length (List.map_filter (map_of us) ids) \<le> length ids" by (rule map_filter_length_le)
  then show ?case using Cons
    by (auto simp add: lookupUnions_def map_filter_simps split: option.splits)
qed

lemma lookupUnions_all:
  "list_all (\<lambda>i. map_of us i \<noteq> None) ids \<Longrightarrow>
     list_all P (lookupUnions ids us)
       \<longleftrightarrow> list_all (\<lambda>i. case map_of us i of Some u \<Rightarrow> P u | None \<Rightarrow> False) ids"
  by (induction ids) (auto simp add: lookupUnions_def map_filter_simps split: option.splits)

lemma canFederate_guard:
  "canFederate s ids \<longleftrightarrow>
     \<not> length ids < 2
     \<and> length (lookupUnions ids (unions s)) = length ids
     \<and> list_all isLicensed (lookupUnions ids (unions s))
     \<and> \<not> list_ex (\<lambda>i. i \<in> set (existingFederatedUnions s)) ids
     \<and> \<not> (paperwork (resources s) < COSTS_createFederation_paperwork
           \<or> patronage (resources s) < COSTS_createFederation_patronage)"
proof (cases "list_all (\<lambda>i. map_of (unions s) i \<noteq> None) ids")
  case True
  have "list_all (\<lambda>i. case map_of (unions s) i of Some u \<Rightarrow> isLicensed u | None \<Rightarrow> False) ids
          \<longleftrightarrow> list_all isLicensed (lookupUnions ids (unions s))"
    using lookupUnions_all [OF True, of isLicensed] by simp
  then show ?thesis using True
    by (auto simp add: canFederate_def lookupUnions_length COSTS_createFederation_paperwork_def
          COSTS_createFederation_patronage_def list_all_iff list_ex_iff)
next
  case False
  then obtain i where "i \<in> set ids" and "map_of (unions s) i = None"
    by (auto simp add: list_all_iff)
  then have "\<not> list_all (\<lambda>i. case map_of (unions s) i of Some u \<Rightarrow> isLicensed u | None \<Rightarrow> False) ids"
    unfolding list_all_iff by (intro notI) (drule bspec, assumption, simp)
  then show ?thesis using False by (simp add: canFederate_def lookupUnions_length)
qed

lemma doFederationCreate_reject:
  "\<not> canFederate s ids \<Longrightarrow> doFederationCreate w s ids = Inr (s, w)"
  unfolding canFederate_guard by (auto simp add: doFederationCreate_def Let_def)

lemma doFederationCreate_accept:
  assumes "canFederate s ids"
  shows "\<exists>name a. doFederationCreate w s ids =
           Inr (s\<lparr>federations :=
                    AList.update (''fed_'' @ string_of_nat (clock w 0))
                      (newFederation w name ids) (federations s),
                  rngCursor := a,
                  resources := applyResourceEffects (resources s) federationCost\<rparr>,
                snd (dateNow w))"
proof -
  obtain name a where
    n: "generateFederationName (createRNG (rngCursor s)) (lookupUnions ids (unions s))
          = Inr (name, a)"
    using generateFederationName_Inr by blast
  have g: "\<not> length ids < 2" "length (lookupUnions ids (unions s)) = length ids"
      "list_all isLicensed (lookupUnions ids (unions s))"
      "\<not> list_ex (\<lambda>i. i \<in> set (existingFederatedUnions s)) ids"
      "\<not> (paperwork (resources s) < COSTS_createFederation_paperwork
           \<or> patronage (resources s) < COSTS_createFederation_patronage)"
    using assms unfolding canFederate_guard by simp_all
  have "doFederationCreate w s ids =
           Inr (s\<lparr>federations :=
                    AList.update (''fed_'' @ string_of_nat (clock w 0))
                      (newFederation w name ids) (federations s),
                  rngCursor := a,
                  resources := applyResourceEffects (resources s) federationCost\<rparr>,
                snd (dateNow w))"
    using g
    by (simp add: doFederationCreate_def Let_def n dateNow_def newFederation_def
          federationCost_def getCursor_def COSTS_createFederation_paperwork_def
          COSTS_createFederation_patronage_def)
  then show ?thesis by blast
qed

lemma doUnionGenerate_reject:
  "paperwork (resources s) < 1 \<or> unionsGeneratedInCycle s \<Longrightarrow>
     doUnionGenerate w s n = Inr (s, w)"
  by (auto simp add: doUnionGenerate_def COSTS_generateUnions_paperwork_def)

lemma doUnionGenerate_accept:
  assumes "1 \<le> paperwork (resources s)" and "\<not> unionsGeneratedInCycle s"
  shows "\<exists>us a w2. generateLoop (nat n) (unions s) (createRNG (rngCursor s)) w = Inr (us, a, w2)
           \<and> doUnionGenerate w s n =
               Inr (s\<lparr>unions := us, rngCursor := a, unionsGeneratedInCycle := True,
                      resources := applyResourceEffects (resources s)
                        (noEffects\<lparr>eff_paperwork := Some (- 1)\<rparr>)\<rparr>, w2)"
proof -
  obtain us a w2 where
    g: "generateLoop (nat n) (unions s) (createRNG (rngCursor s)) w = Inr (us, a, w2)"
    using generateLoop_Inr by blast
  show ?thesis using assms
    by (simp add: doUnionGenerate_def g COSTS_generateUnions_paperwork_def getCursor_def)
qed

lemma generate_one_ids:
  assumes "1 \<le> paperwork (resources s)" and "\<not> unionsGeneratedInCycle s" and "unions s = []"
  shows "generatedIds (gameReducer w s (UNION_GENERATE 1)) = [fst (generateId w)]
       \<and> resultWorld (gameReducer w s (UNION_GENERATE 1)) = Some (snd (generateId w))"
proof -
  obtain u a1 where
    g: "generateUnion (createRNG (rngCursor s)) w = Inr (u, a1, snd (generateId w))"
    and i: "union_id u = fst (generateId w)"
    using generateUnion_Inr by blast
  have "generateLoop (nat 1) [] (createRNG (rngCursor s)) w
          = Inr ([(fst (generateId w), u)], a1, snd (generateId w))"
    by (simp add: g i)
  then show ?thesis using assms
    by (simp add: doUnionGenerate_def COSTS_generateUnions_paperwork_def generatedIds_def
          resultState_def resultWorld_def)
qed

lemma create_first_federation_ids:
  assumes "canFederate s ids" and "federations s = []"
  shows "federationIds (gameReducer w s (FEDERATION_CREATE ids))
           = [''fed_'' @ string_of_nat (clock w 0)]"
proof -
  obtain name a where "doFederationCreate w s ids =
           Inr (s\<lparr>federations :=
                    AList.update (''fed_'' @ string_of_nat (clock w 0))
                      (newFederation w name ids) (federations s),
                  rngCursor := a,
                  resources := applyResourceEffects (resources s) federationCost\<rparr>,
                snd (dateNow w))"
    using doFederationCreate_accept [OF assms(1)] by blast
  then show ?thesis using assms(2) by (simp add: federationIds_def resultState_def)
qed

lemma fedState_canFederate: "canFederate fedState [''u01'', ''u02'']"
  by (simp add: canFederate_def fedState_def baseState_def licensedShell_def shellUnion_def
        existingFederatedUnions_def DEFAULT_RESOURCES_def)

subsection \<open>Resources stay within their bounds\<close>

text \<open>
  Every state the reducer above reaches has its resources within the bounds of the data
  model: the initial ones are, and the reducer writes resources only through
  \<^verbatim>\<open>applyResourceEffects\<close>, with integer deltas.
\<close>

lemma DEFAULT_RESOURCES_inBounds: "resourcesInBounds DEFAULT_RESOURCES"
  by (simp add: resourcesInBounds_def DEFAULT_RESOURCES_def)

lemma createInitialState_inBounds:
  "resourcesInBounds (resources (fst (createInitialState seedArg showTipsArg w)))"
  by (simp add: createInitialState_def split_def Let_def DEFAULT_RESOURCES_inBounds)

lemma applyCycleEnd_inBounds: "resourcesInBounds (resources (applyCycleEnd s))"
  by (simp add: applyCycleEnd_def split_def Let_def applyResourceEffects_inBounds)

lemma doTurnAdvance_inBounds:
  "resourcesInBounds (resources s) \<Longrightarrow> resourcesInBounds (resources (doTurnAdvance s))"
  by (simp add: doTurnAdvance_def Let_def applyCycleEnd_inBounds)

lemma doEventChoose_inBounds: "resourcesInBounds (resources (doEventChoose s e eff ul))"
  by (simp add: doEventChoose_def Let_def applyCycleEnd_inBounds applyResourceEffects_inBounds)

lemma doUnionLicense_inBounds:
  "resourcesInBounds (resources s) \<Longrightarrow> resourcesInBounds (resources (doUnionLicense s i))"
  by (simp add: doUnionLicense_def Let_def split_def applyResourceEffects_inBounds
        split: option.splits)

lemma doUnionIncubate_inBounds:
  "resourcesInBounds (resources s) \<Longrightarrow> resourcesInBounds (resources (doUnionIncubate s i m))"
  by (simp add: doUnionIncubate_def Let_def applyResourceEffects_inBounds split: option.splits)

lemma doUnionDissolve_inBounds:
  "resourcesInBounds (resources s) \<Longrightarrow> resourcesInBounds (resources (doUnionDissolve s i))"
  by (simp add: doUnionDissolve_def Let_def applyResourceEffects_inBounds split: option.splits)

lemma doUnionReassign_inBounds:
  "resourcesInBounds (resources s) \<Longrightarrow> resourcesInBounds (resources (doUnionReassign s i))"
  by (simp add: doUnionReassign_def Let_def applyResourceEffects_inBounds split: option.splits)

lemma reducer_keeps_bounds:
  assumes "resourcesInBounds (resources s)" and "gameReducer w s a = Inr (s2, w2)"
  shows "resourcesInBounds (resources s2)"
proof (cases a)
  case (RUN_START sd tp)
  then show ?thesis using assms(2) createInitialState_inBounds [of sd tp w]
    by (auto simp add: split_def Let_def)
next
  case RUN_RESET
  then show ?thesis using assms(2) createInitialState_inBounds [of None None w]
    by (auto simp add: split_def Let_def)
next
  case (UNION_GENERATE n)
  show ?thesis
  proof (cases "paperwork (resources s) < 1 \<or> unionsGeneratedInCycle s")
    case True
    then show ?thesis using doUnionGenerate_reject [of s w n] UNION_GENERATE assms by simp
  next
    case False
    then show ?thesis using doUnionGenerate_accept [of s n w] UNION_GENERATE assms(2)
      by (auto simp add: applyResourceEffects_inBounds)
  qed
next
  case (FEDERATION_CREATE ids)
  show ?thesis
  proof (cases "canFederate s ids")
    case True
    then show ?thesis using doFederationCreate_accept [of s ids w] FEDERATION_CREATE assms(2)
      by (auto simp add: applyResourceEffects_inBounds)
  next
    case False
    then show ?thesis using doFederationCreate_reject [of s ids w] FEDERATION_CREATE assms
      by simp
  qed
qed (use assms in \<open>auto simp add: doTurnAdvance_inBounds doEventChoose_inBounds
       doUnionLicense_inBounds doUnionIncubate_inBounds doUnionDissolve_inBounds
       doUnionReassign_inBounds doElectionResolve_def\<close>)

lemma reachable_inBounds: "reachable s \<Longrightarrow> resourcesInBounds (resources s)"
  by (induction rule: reachable.induct)
     (simp_all add: createInitialState_inBounds reducer_keeps_bounds)

subsection \<open>The election (C1)\<close>

lemma roll_exceeds_zero_percent:
  assumes "p \<le> 0"
  shows "\<not> real_of_int (fst (nextInt 1 100 a)) \<le> p"
proof -
  have "1 \<le> fst (nextInt 1 100 a)" by (rule nextInt_lower) simp
  then have "1 \<le> real_of_int (fst (nextInt 1 100 a))" by linarith
  with assms show ?thesis by linarith
qed

lemma rollFederations_none_secured:
  assumes "list_all (\<lambda>f. getFederationReliability f us \<le> 0) fs"
  shows "sum_list (rollFederations fs us a) = 0"
  using assms
proof (induction fs arbitrary: a)
  case Nil
  show ?case by simp
next
  case (Cons f fs)
  from Cons.prems have r: "getFederationReliability f us / 2 * 100 \<le> 0"
    and rest: "list_all (\<lambda>f. getFederationReliability f us \<le> 0) fs"
    by simp_all
  show ?case
  proof (cases "recognition f = recognized")
    case False
    with Cons.IH [OF rest] show ?thesis by simp
  next
    case True
    obtain roll1 a1 where n1: "nextInt 1 100 a = (roll1, a1)" by (cases "nextInt 1 100 a")
    obtain roll2 a2 where n2: "nextInt 1 100 a1 = (roll2, a2)" by (cases "nextInt 1 100 a1")
    have f1: "\<not> real_of_int roll1 \<le> getFederationReliability f us / 2 * 100"
      using roll_exceeds_zero_percent [OF r, of a] n1 by simp
    have f2: "\<not> real_of_int roll2 \<le> getFederationReliability f us / 2 * 100"
      using roll_exceeds_zero_percent [OF r, of a1] n2 by simp
    show ?thesis using True n1 n2 f1 f2 Cons.IH [OF rest, of a2] by (simp add: Let_def)
  qed
qed

lemma reliability_of_disloyal:
  assumes "list_all (\<lambda>u. loyalty u = 0) (lookupUnions (unionIds f) us)"
  shows "getFederationReliability f us = 0"
proof -
  have "list_all (\<lambda>u. loyalty u = 0) xs \<Longrightarrow> sum_list (map loyalty xs) = 0" for xs
    by (induction xs) simp_all
  from this [OF assms] have "sum_list (map loyalty (lookupUnions (unionIds f) us)) = 0" .
  then show ?thesis by (simp add: getFederationReliability_def Let_def)
qed

lemma electionState_reliability:
  "list_all (\<lambda>f. getFederationReliability f (unions electionState) \<le> 0)
     (map snd (federations electionState))"
  by (simp add: reliability_of_disloyal electionState_def baseState_def zeroFederation_def
        licensedShell_def shellUnion_def lookupUnions_def List.map_filter_def)

lemma electionState_secured: "securedDelegates electionState = 0"
  unfolding securedDelegates_def
  by (rule rollFederations_none_secured [OF electionState_reliability])

lemma electionState_total: "getTotalDelegates electionState = 12"
  by (simp add: getTotalDelegates_def electionState_def baseState_def zeroFederation_def)

text \<open>
  Claim C1. When the election is resolved, each recognized federation's two delegates are
  rolled against the average loyalty of its members, and the ending is \<open>capture\<close> if the
  secured delegates number at least 6 and \<open>collapse\<close> otherwise; with 6 recognized
  federations whose members all have loyalty 0, no delegate is secured and the ending is
  \<open>collapse\<close>.

  The code does not do this. The rolls are made by the election screen
  (\<open>securedDelegates\<close>), for display; \<^verbatim>\<open>ELECTION_RESOLVE\<close> never sees them and sets the
  ending from the nominal delegates of the recognized federations. At \<open>electionState\<close> no
  delegate is secured, the nominal count is 12, and the ending is \<open>capture\<close>.
\<close>

theorem C1_election_ignores_rolls:
  "gameReducer w s ELECTION_RESOLVE =
     Inr (s\<lparr>phase := ended,
            ending := Some (if 6 \<le> getTotalDelegates s then capture else collapse)\<rparr>, w)
   \<and> securedDelegates electionState = 0
   \<and> getTotalDelegates electionState = 12
   \<and> gameReducer w electionState ELECTION_RESOLVE =
       Inr (electionState\<lparr>phase := ended, ending := Some capture\<rparr>, w)"
  by (simp add: doElectionResolve_def getTotalDelegates_def [symmetric] electionState_secured
        electionState_total)

subsection \<open>Ids come from the clock and a counter (C2)\<close>

text \<open>
  Claim C2. Two invocations of the reducer with the same state, the same action and the
  same cursor produce identical result states, in particular identical ids for the unions
  and federations created by \<^verbatim>\<open>UNION_GENERATE\<close> and \<^verbatim>\<open>FEDERATION_CREATE\<close>.

  The code does not do this, against its own header (\<^verbatim>\<open>Pure function: (state, action) ->
  newState\<close>): \<^verbatim>\<open>generateId\<close> reads \<^verbatim>\<open>Date.now()\<close> and increments the module-level
  \<^verbatim>\<open>idCounter\<close>, and \<^verbatim>\<open>FEDERATION_CREATE\<close> reads \<^verbatim>\<open>Date.now()\<close>. At the same state and
  action, the call made in \<open>world0\<close> and the call made next (in \<open>world1\<close>, the world the first
  call leaves, one millisecond on) create unions and federations under different ids, so
  the result states differ.
\<close>

theorem C2_ids_from_clock_and_counter:
  "generatedIds (gameReducer world0 baseState (UNION_GENERATE 1)) = [''union_1700000000000_1'']
   \<and> resultWorld (gameReducer world0 baseState (UNION_GENERATE 1)) = Some world1
   \<and> generatedIds (gameReducer world1 baseState (UNION_GENERATE 1)) = [''union_1700000000001_2'']
   \<and> resultState (gameReducer world0 baseState (UNION_GENERATE 1))
       \<noteq> resultState (gameReducer world1 baseState (UNION_GENERATE 1))
   \<and> federationIds (gameReducer world0 fedState (FEDERATION_CREATE [''u01'', ''u02'']))
       = [''fed_1700000000000'']
   \<and> federationIds (gameReducer world1 fedState (FEDERATION_CREATE [''u01'', ''u02'']))
       = [''fed_1700000000001'']
   \<and> resultState (gameReducer world0 fedState (FEDERATION_CREATE [''u01'', ''u02'']))
       \<noteq> resultState (gameReducer world1 fedState (FEDERATION_CREATE [''u01'', ''u02'']))"
proof -
  have b: "1 \<le> paperwork (resources baseState)" "\<not> unionsGeneratedInCycle baseState"
      "unions baseState = []"
    by (simp_all add: baseState_def DEFAULT_RESOURCES_def)
  have g0: "generatedIds (gameReducer world0 baseState (UNION_GENERATE 1))
              = [''union_1700000000000_1'']"
    and w0: "resultWorld (gameReducer world0 baseState (UNION_GENERATE 1)) = Some world1"
    using generate_one_ids [OF b, of world0] by (simp_all add: generateId_world0)
  have g1: "generatedIds (gameReducer world1 baseState (UNION_GENERATE 1))
              = [''union_1700000000001_2'']"
    using generate_one_ids [OF b, of world1] by (simp add: generateId_world1)
  have f: "federations fedState = []" by (simp add: fedState_def baseState_def)
  have f0: "federationIds (gameReducer world0 fedState (FEDERATION_CREATE [''u01'', ''u02'']))
              = [''fed_1700000000000'']"
    using create_first_federation_ids [OF fedState_canFederate f, of world0]
    by (simp add: world0_def string_of_nat.simps digit_def)
  have f1: "federationIds (gameReducer world1 fedState (FEDERATION_CREATE [''u01'', ''u02'']))
              = [''fed_1700000000001'']"
    using create_first_federation_ids [OF fedState_canFederate f, of world1]
    by (simp add: world1_def string_of_nat.simps digit_def)
  have d1: "resultState (gameReducer world0 baseState (UNION_GENERATE 1))
              \<noteq> resultState (gameReducer world1 baseState (UNION_GENERATE 1))"
    using g0 g1 unfolding generatedIds_def by auto
  have d2: "resultState (gameReducer world0 fedState (FEDERATION_CREATE [''u01'', ''u02'']))
       \<noteq> resultState (gameReducer world1 fedState (FEDERATION_CREATE [''u01'', ''u02'']))"
    using f0 f1 unfolding federationIds_def by auto
  show ?thesis using g0 w0 g1 d1 f0 f1 d2 by (simp only: simp_thms)
qed

subsection \<open>Creating a federation (C3)\<close>

lemma federationCost_lowers_paperwork:
  "2 \<le> paperwork r \<Longrightarrow> paperwork (applyResourceEffects r federationCost) < paperwork r"
  by (simp add: applyResourceEffects_def federationCost_def noEffects_def orZero_def clamp_def)

lemma federationCost_inBounds:
  "resourcesInBounds r \<Longrightarrow> 2 \<le> paperwork r \<Longrightarrow> 3 \<le> patronage r \<Longrightarrow>
     applyResourceEffects r federationCost
       = r\<lparr>paperwork := paperwork r - 2, patronage := patronage r - 3,
           auditRisk := min 100 (auditRisk r + 5)\<rparr>"
  by (auto simp add: resourcesInBounds_def applyResourceEffects_def federationCost_def
        noEffects_def orZero_def clamp_def)

lemma doFederationCreate_changes:
  assumes "canFederate s ids"
  shows "resultState (doFederationCreate w s ids) \<noteq> Some s"
proof -
  obtain name a where d: "doFederationCreate w s ids =
           Inr (s\<lparr>federations :=
                    AList.update (''fed_'' @ string_of_nat (clock w 0))
                      (newFederation w name ids) (federations s),
                  rngCursor := a,
                  resources := applyResourceEffects (resources s) federationCost\<rparr>,
                snd (dateNow w))"
    using doFederationCreate_accept [OF assms] by blast
  define s2 where "s2 = s\<lparr>federations :=
                    AList.update (''fed_'' @ string_of_nat (clock w 0))
                      (newFederation w name ids) (federations s),
                  rngCursor := a,
                  resources := applyResourceEffects (resources s) federationCost\<rparr>"
  have "2 \<le> paperwork (resources s)" using assms by (simp add: canFederate_def)
  then have "paperwork (resources s2) \<noteq> paperwork (resources s)"
    using federationCost_lowers_paperwork [of "resources s"] by (simp add: s2_def)
  then have "s2 \<noteq> s" by auto
  moreover have "resultState (doFederationCreate w s ids) = Some s2"
    unfolding d s2_def resultState_def by simp
  ultimately show ?thesis by simp
qed

text \<open>
  Claim C3. \<^verbatim>\<open>FEDERATION_CREATE\<close> produces a new federation exactly when the supplied
  union ids number at least 2 and are distinct, each names an existing licensed union, none
  is already a member of a federation, and paperwork \<ge> 2 and patronage \<ge> 3; the created
  federation has delegates = 2 and recognition \<open>recognized\<close>, the paperwork and patronage
  costs are deducted, and a fixed audit-risk penalty is applied; in every other case the
  state is returned unchanged.

  As amended: the same without "and are distinct". The reducer never compares the ids with
  each other (\<open>canFederate\<close> is the condition it checks), so an id given twice is accepted;
  the dashboard, which toggles a selection, never sends one. The resources of the result
  are \<^verbatim>\<open>applyResourceEffects\<close> of the old ones under \<open>federationCost\<close>; on resources within
  the bounds of the data model that is paperwork - 2, patronage - 3 and
  min 100 (auditRisk + 5).
\<close>

theorem C3_federation_create:
  "(canFederate s ids \<longrightarrow>
      (\<exists>name a. gameReducer w s (FEDERATION_CREATE ids) =
         Inr (s\<lparr>federations :=
                  AList.update (''fed_'' @ string_of_nat (clock w 0))
                    (newFederation w name ids) (federations s),
                rngCursor := a,
                resources := applyResourceEffects (resources s) federationCost\<rparr>,
              snd (dateNow w)))
      \<and> resultState (gameReducer w s (FEDERATION_CREATE ids)) \<noteq> Some s)
   \<and> (\<not> canFederate s ids \<longrightarrow> gameReducer w s (FEDERATION_CREATE ids) = Inr (s, w))
   \<and> (canFederate s ids \<and> resourcesInBounds (resources s) \<longrightarrow>
        applyResourceEffects (resources s) federationCost
          = (resources s)\<lparr>paperwork := paperwork (resources s) - 2,
                           patronage := patronage (resources s) - 3,
                           auditRisk := min 100 (auditRisk (resources s) + 5)\<rparr>)
   \<and> delegates (newFederation w nm ids) = 2
   \<and> recognition (newFederation w nm ids) = recognized
   \<and> unionIds (newFederation w nm ids) = ids"
proof -
  have "canFederate s ids \<and> resourcesInBounds (resources s) \<longrightarrow>
        applyResourceEffects (resources s) federationCost
          = (resources s)\<lparr>paperwork := paperwork (resources s) - 2,
                           patronage := patronage (resources s) - 3,
                           auditRisk := min 100 (auditRisk (resources s) + 5)\<rparr>"
    using federationCost_inBounds [of "resources s"] by (simp add: canFederate_def)
  then show ?thesis
    using doFederationCreate_accept [of s ids w] doFederationCreate_changes [of s ids w]
      doFederationCreate_reject [of s ids w]
    by (simp add: newFederation_def)
qed

lemma dupState_canFederate: "canFederate dupState [''u01'', ''u01'']"
  by (simp add: canFederate_def dupState_def baseState_def licensedShell_def shellUnion_def
        existingFederatedUnions_def DEFAULT_RESOURCES_def)

text \<open>The claim as stated fails where one licensed union is named twice.\<close>

theorem C3_duplicate_ids_counterexample:
  "\<not> distinct [''u01'', ''u01'']
   \<and> federationIds (gameReducer world0 dupState (FEDERATION_CREATE [''u01'', ''u01'']))
       = [''fed_1700000000000'']
   \<and> resultState (gameReducer world0 dupState (FEDERATION_CREATE [''u01'', ''u01'']))
       \<noteq> Some dupState"
proof -
  have f: "federations dupState = []" by (simp add: dupState_def baseState_def)
  have "federationIds (gameReducer world0 dupState (FEDERATION_CREATE [''u01'', ''u01'']))
       = [''fed_1700000000000'']"
    using create_first_federation_ids [OF dupState_canFederate f, of world0]
    by (simp add: world0_def string_of_nat.simps digit_def)
  then show ?thesis
    using doFederationCreate_changes [OF dupState_canFederate, of world0] by simp
qed

lemma fedState_resources:
  "applyResourceEffects (resources fedState) federationCost
     = \<lparr>paperwork = 1, patronage = 2, legitimacy = 70, auditRisk = 15, streetHeat = 5\<rparr>"
  by (simp add: fedState_def baseState_def DEFAULT_RESOURCES_def applyResourceEffects_def
        federationCost_def noEffects_def orZero_def clamp_def)

lemma baseState_cannot: "\<not> canFederate baseState [''u01'', ''u02'']"
  by (simp add: canFederate_def baseState_def)

theorem C3_federation_create_witness:
  "canFederate fedState [''u01'', ''u02'']
   \<and> resourcesInBounds (resources fedState)
   \<and> map_option resources
        (resultState (gameReducer world0 fedState (FEDERATION_CREATE [''u01'', ''u02''])))
       = Some \<lparr>paperwork = 1, patronage = 2, legitimacy = 70, auditRisk = 15, streetHeat = 5\<rparr>
   \<and> resultState (gameReducer world0 fedState (FEDERATION_CREATE [''u01'', ''u02'']))
       \<noteq> Some fedState
   \<and> \<not> canFederate baseState [''u01'', ''u02'']
   \<and> gameReducer world0 baseState (FEDERATION_CREATE [''u01'', ''u02'']) = Inr (baseState, world0)"
proof -
  have b: "resourcesInBounds (resources fedState)"
    by (simp add: resourcesInBounds_def fedState_def baseState_def DEFAULT_RESOURCES_def)
  from C3_federation_create [of fedState "[''u01'', ''u02'']" world0 "[]"] fedState_canFederate
  obtain name a where
    "gameReducer world0 fedState (FEDERATION_CREATE [''u01'', ''u02'']) =
         Inr (fedState\<lparr>federations :=
                  AList.update (''fed_'' @ string_of_nat (clock world0 0))
                    (newFederation world0 name [''u01'', ''u02'']) (federations fedState),
                rngCursor := a,
                resources := applyResourceEffects (resources fedState) federationCost\<rparr>,
              snd (dateNow world0))"
    and "resultState (gameReducer world0 fedState (FEDERATION_CREATE [''u01'', ''u02'']))
       \<noteq> Some fedState"
    by blast
  moreover have "gameReducer world0 baseState (FEDERATION_CREATE [''u01'', ''u02''])
                   = Inr (baseState, world0)"
    using C3_federation_create [of baseState "[''u01'', ''u02'']" world0 "[]"] baseState_cannot
    by blast
  ultimately show ?thesis
    using b fedState_canFederate baseState_cannot
    by (simp add: resultState_def fedState_resources)
qed

subsection \<open>The cycle end and the cursor (C4)\<close>

lemma applyCycleEnd_rngCursor: "rngCursor (applyCycleEnd s) = rngCursor s"
  by (simp add: applyCycleEnd_def Let_def split_def)

lemma crackLoop_crackState:
  "crackLoop (unions crackState) (createRNG (rngCursor crackState)) 0 0 =
     (unions crackState, 0, 0, 1831565855)"
  by (simp add: crackState_def baseState_def shellUnion_def roll_42 getCrackRisk_def floor_035)

lemma upkeep_crackState:
  "calculateUpkeep crackState =
     \<lparr>eff_paperwork = Some 3, eff_patronage = Some 7, eff_legitimacy = Some 0,
      eff_auditRisk = Some 1, eff_streetHeat = Some (- 2)\<rparr>"
  by (simp add: calculateUpkeep_def crackState_def baseState_def shellUnion_def isShell_def
        DEFAULT_RESOURCES_def)

lemma applyCycleEnd_crackState:
  "applyCycleEnd crackState =
     crackState\<lparr>resources := \<lparr>paperwork = 6, patronage = 12, legitimacy = 70,
                                 auditRisk = 11, streetHeat = 3\<rparr>,
                cycle := 2\<rparr>"
proof -
  have r: "resources crackState = DEFAULT_RESOURCES" "cycle crackState = 1"
    by (simp_all add: crackState_def baseState_def)
  have "applyCycleEnd crackState =
     crackState\<lparr>unions := unions crackState,
                resources := \<lparr>paperwork = 6, patronage = 12, legitimacy = 70,
                              auditRisk = 11, streetHeat = 3\<rparr>,
                cycle := 2, unionsGeneratedInCycle := False\<rparr>"
    unfolding applyCycleEnd_def processCrackChecks_def crackLoop_crackState upkeep_crackState
    by (simp add: r applyResourceEffects_def clamp_def noEffects_def orZero_def
          DEFAULT_RESOURCES_def)
  then show ?thesis by (simp add: crackState_def baseState_def)
qed

lemma next_a_word: "next_a a = toInt32 (a + 1831565813)"
proof -
  have "(word_of_int (sint (word_of_int a :: 32 word) + 1831565813) :: 32 word)
          = word_of_int (a + 1831565813)"
    by simp
  then show ?thesis by (simp add: next_a_def toInt32_def)
qed

lemma next_a_iterate: "(next_a ^^ Suc k) a = toInt32 (a + (1 + int k) * 1831565813)"
proof (induction k)
  case 0
  show ?case by (simp add: next_a_word)
next
  case (Suc k)
  have "(next_a ^^ Suc (Suc k)) a = next_a (toInt32 (a + (1 + int k) * 1831565813))"
    using Suc by simp
  also have "\<dots> = toInt32 (toInt32 (a + (1 + int k) * 1831565813) + 1831565813)"
    by (rule next_a_word)
  also have "\<dots> = toInt32 (a + (1 + int (Suc k)) * 1831565813)"
  proof -
    have "(word_of_int (sint (word_of_int (a + (1 + int k) * 1831565813) :: 32 word) + 1831565813)
             :: 32 word)
          = word_of_int (a + (1 + int (Suc k)) * 1831565813)"
      by (simp add: algebra_simps)
    then show ?thesis by (simp only: toInt32_def)
  qed
  finally show ?case .
qed

lemma crackLoop_rng:
  "snd (snd (snd (crackLoop us a lp ap))) = (next_a ^^ length (filter crackEligible us)) a"
proof (induction us arbitrary: a lp ap)
  case Nil
  show ?case by simp
next
  case (Cons e us)
  obtain k u where e: "e = (k, u)" by (cases e)
  show ?case
  proof (cases "isCracked u \<or> \<not> isLicensed u")
    case True
    then show ?thesis using Cons [of a lp ap]
      by (auto simp add: e crackEligible_def split_def Let_def)
  next
    case False
    have n: "snd (nextInt 1 100 a) = next_a a" by (rule nextInt_snd)
    show ?thesis using False Cons [of "next_a a"] n
      by (simp add: e crackEligible_def split_def Let_def funpow_swap1)
  qed
qed

lemma cursor_moves:
  assumes "0 < k" and "k < 4294967296"
  shows "toInt32 (toUint32 c + int k * 1831565813) \<noteq> c"
proof
  assume eq: "toInt32 (toUint32 c + int k * 1831565813) = c"
  have "(word_of_int (toInt32 (toUint32 c + int k * 1831565813)) :: 32 word)
          = word_of_int c + word_of_int (int k * 1831565813)"
    by (simp add: toInt32_def toUint32_def)
  with eq have "(word_of_int c :: 32 word) = word_of_int c + word_of_int (int k * 1831565813)"
    by simp
  then have "(word_of_int (int k * 1831565813) :: 32 word) = 0" by simp
  then have "(2 :: int) ^ LENGTH(32) dvd int k * 1831565813"
    by (simp only: word_of_int_eq_0_iff)
  then have d: "(4294967296 :: int) dvd int k * 1831565813" by simp
  have "coprime ((2 :: int) ^ 32) 1831565813"
    by (simp only: coprime_power_left_iff) simp
  then have "coprime (4294967296 :: int) 1831565813" by simp
  with d have "(4294967296 :: int) dvd int k"
    by (simp only: coprime_dvd_mult_left_iff)
  then have "(4294967296 :: int) \<le> int k" using assms(1) by (intro zdvd_imp_le) simp_all
  with assms(2) show False by simp
qed

lemma crack_rolls_move_cursor:
  assumes "list_ex crackEligible (unions s)" and "length (unions s) < 4294967296"
  shows "crackCursor s \<noteq> rngCursor (applyCycleEnd s)"
proof -
  define k where "k = length (filter crackEligible (unions s))"
  have "filter crackEligible (unions s) \<noteq> []"
    using assms(1) by (simp add: list_ex_iff filter_empty_conv)
  then obtain j where j: "k = Suc j" unfolding k_def by (cases "filter crackEligible (unions s)") auto
  have "k \<le> length (unions s)" unfolding k_def by simp
  then have b: "k < 4294967296" using assms(2) by simp
  have "crackCursor s = (next_a ^^ k) (createRNG (rngCursor s))"
    using crackLoop_rng [of "unions s" "createRNG (rngCursor s)" 0 0]
    by (simp add: crackCursor_def getCursor_def split_def k_def)
  also have "\<dots> = toInt32 (toUint32 (rngCursor s) + int k * 1831565813)"
    unfolding j next_a_iterate by (simp add: createRNG_def)
  finally have "crackCursor s \<noteq> rngCursor s"
    using cursor_moves [of k "rngCursor s"] b j by simp
  then show ?thesis by (simp add: applyCycleEnd_rngCursor)
qed

text \<open>
  Claim C4. For every state with at least one licensed, non-cracked union, a cycle-ending
  transition consumes draws for the crack checks and returns a state whose \<^verbatim>\<open>rngCursor\<close> is
  the cursor of the generator after all crack rolls, not the input cursor.

  The code does not do this: \<^verbatim>\<open>applyCycleEnd\<close> returns the input cursor in every state,
  and in every state with a licensed, non-cracked union (and fewer than 2^32 unions) that
  is not the cursor of the generator after the crack rolls. At \<open>crackState\<close> (one licensed
  union, cursor 42) the crack check draws once, which leaves the generator at 1831565855,
  and \<^verbatim>\<open>TURN_ADVANCE\<close> returns a state whose cursor is still 42.
\<close>

theorem C4_cycle_end_keeps_cursor:
  "rngCursor (applyCycleEnd s) = rngCursor s
   \<and> (list_ex crackEligible (unions s) \<and> length (unions s) < 4294967296 \<longrightarrow>
        crackCursor s \<noteq> rngCursor (applyCycleEnd s))
   \<and> crackCursor crackState = 1831565855
   \<and> rngCursor (applyCycleEnd crackState) = 42
   \<and> gameReducer w crackState TURN_ADVANCE =
       Inr (crackState\<lparr>resources := \<lparr>paperwork = 6, patronage = 12, legitimacy = 70,
                                        auditRisk = 11, streetHeat = 3\<rparr>,
                       cycle := 2, phase := playing\<rparr>, w)"
proof -
  have "crackCursor crackState = 1831565855"
    unfolding crackCursor_def crackLoop_crackState by (simp add: getCursor_def)
  moreover have "rngCursor (applyCycleEnd crackState) = 42"
    by (simp add: applyCycleEnd_rngCursor crackState_def baseState_def)
  moreover have "doTurnAdvance crackState =
       crackState\<lparr>resources := \<lparr>paperwork = 6, patronage = 12, legitimacy = 70,
                                   auditRisk = 11, streetHeat = 3\<rparr>,
                  cycle := 2, phase := playing\<rparr>"
    unfolding doTurnAdvance_def applyCycleEnd_crackState
    by (simp add: checkLoseCondition_def crackState_def baseState_def)
  ultimately show ?thesis
    using crack_rolls_move_cursor [of s] by (simp add: applyCycleEnd_rngCursor)
qed

theorem C4_cycle_end_keeps_cursor_witness:
  "list_ex crackEligible (unions crackState)
   \<and> length (unions crackState) < 4294967296
   \<and> crackCursor crackState \<noteq> rngCursor (applyCycleEnd crackState)"
proof -
  have "list_ex crackEligible (unions crackState)"
    by (simp add: crackEligible_def crackState_def baseState_def shellUnion_def)
  moreover have "length (unions crackState) < 4294967296"
    by (simp add: crackState_def baseState_def)
  ultimately show ?thesis using C4_cycle_end_keeps_cursor [of crackState] by simp
qed

subsection \<open>Clamping (C5)\<close>


lemma clamp_number_NaN: "clamp_number NaN lo hi = NaN"
  by (simp add: clamp_number_def Math_min_def Math_max_def)

lemma clamp_number_Fin:
  "clamp_number (Fin x) (Fin lo) (Fin hi) = Fin (max lo (min hi x))"
  by (simp add: clamp_number_def Math_min_def Math_max_def max_def min_def)

lemma clamp_number_PosInf: "lo \<le> hi \<Longrightarrow> clamp_number PosInf (Fin lo) (Fin hi) = Fin hi"
  by (simp add: clamp_number_def Math_min_def Math_max_def)

lemma clamp_number_NegInf: "clamp_number NegInf (Fin lo) (Fin hi) = Fin lo"
  by (simp add: clamp_number_def Math_min_def Math_max_def)

lemma clamp_number_in_range:
  "lo \<le> hi \<Longrightarrow> v \<noteq> NaN \<Longrightarrow> inRange (clamp_number v (Fin lo) (Fin hi)) lo hi"
  by (cases v)
     (simp_all add: clamp_number_Fin clamp_number_PosInf clamp_number_NegInf inRange_def)

lemma clamp_number_toNumber:
  "clamp_number (number_add (toNumber a) (toNumber b)) (Fin (real_of_int lo)) (Fin (real_of_int hi))
     = toNumber (clamp (a + b) lo hi)"
  by (simp add: toNumber_def clamp_number_Fin clamp_def max_def min_def)

lemma orZero_toNumber: "orZero_number (map_option toNumber x) = toNumber (orZero x)"
  by (cases x) (simp_all add: orZero_number_def orZero_def toNumber_def)

lemma applyResourceEffects_on_integers:
  "applyResourceEffects_number (resources_number r) (effects_number e)
     = resources_number (applyResourceEffects r e)"
  using clamp_number_toNumber [of "paperwork r" "orZero (eff_paperwork e)" 0 10]
    clamp_number_toNumber [of "patronage r" "orZero (eff_patronage e)" 0 20]
    clamp_number_toNumber [of "legitimacy r" "orZero (eff_legitimacy e)" 0 100]
    clamp_number_toNumber [of "auditRisk r" "orZero (eff_auditRisk e)" 0 100]
    clamp_number_toNumber [of "streetHeat r" "orZero (eff_streetHeat e)" 0 100]
  by (simp add: applyResourceEffects_number_def applyResourceEffects_def resources_number_def
        effects_number_def orZero_toNumber)

lemma applyUnionEffects_on_integers:
  "applyUnionEffects_number (stats_number u) (statEffects_number e)
     = stats_number (applyUnionEffects u e)"
  using clamp_number_toNumber [of "plausibility u" "orZero (eff_plausibility e)" 0 100]
    clamp_number_toNumber [of "loyalty u" "orZero (eff_loyalty e)" 0 100]
    clamp_number_toNumber [of "integrity u" "orZero (eff_integrity e)" 0 100]
  by (simp add: applyUnionEffects_number_def applyUnionEffects_def stats_number_def
        statEffects_number_def orZero_toNumber)

lemma applyUnionEffects_inBounds:
  "0 \<le> plausibility (applyUnionEffects u d) \<and> plausibility (applyUnionEffects u d) \<le> 100
   \<and> 0 \<le> loyalty (applyUnionEffects u d) \<and> loyalty (applyUnionEffects u d) \<le> 100
   \<and> 0 \<le> integrity (applyUnionEffects u d) \<and> integrity (applyUnionEffects u d) \<le> 100"
  by (simp add: applyUnionEffects_def clamp_def)

lemma clamp_number_in_range_or_NaN:
  "lo \<le> hi \<Longrightarrow>
     clamp_number v (Fin lo) (Fin hi) = NaN \<or> inRange (clamp_number v (Fin lo) (Fin hi)) lo hi"
  using clamp_number_in_range [of lo hi v] by (cases "v = NaN") (simp_all add: clamp_number_NaN)

lemma resource_in_range_or_NaN:
  "paperwork_n (applyResourceEffects_number r e) = NaN
     \<or> inRange (paperwork_n (applyResourceEffects_number r e)) 0 10"
  "patronage_n (applyResourceEffects_number r e) = NaN
     \<or> inRange (patronage_n (applyResourceEffects_number r e)) 0 20"
  "legitimacy_n (applyResourceEffects_number r e) = NaN
     \<or> inRange (legitimacy_n (applyResourceEffects_number r e)) 0 100"
  "auditRisk_n (applyResourceEffects_number r e) = NaN
     \<or> inRange (auditRisk_n (applyResourceEffects_number r e)) 0 100"
  "streetHeat_n (applyResourceEffects_number r e) = NaN
     \<or> inRange (streetHeat_n (applyResourceEffects_number r e)) 0 100"
  by (simp_all add: applyResourceEffects_number_def clamp_number_in_range_or_NaN)


subsection \<open>The phase (C6)\<close>

lemma calculateUpkeep_phase: "calculateUpkeep (s\<lparr>phase := p\<rparr>) = calculateUpkeep s"
  by (simp add: calculateUpkeep_def)

lemma processCrackChecks_phase: "processCrackChecks (s\<lparr>phase := p\<rparr>) = processCrackChecks s"
  by (simp add: processCrackChecks_def)

lemma applyCycleEnd_phase: "applyCycleEnd (s\<lparr>phase := p\<rparr>) = (applyCycleEnd s)\<lparr>phase := p\<rparr>"
  by (simp add: applyCycleEnd_def calculateUpkeep_phase processCrackChecks_phase Let_def split_def)

lemma checkLoseCondition_phase: "checkLoseCondition (s\<lparr>phase := p\<rparr>) = checkLoseCondition s"
  by (simp add: checkLoseCondition_def)

lemma doTurnAdvance_phase: "doTurnAdvance (s\<lparr>phase := p\<rparr>) = doTurnAdvance s"
  by (simp add: doTurnAdvance_def applyCycleEnd_phase checkLoseCondition_phase Let_def)

lemma doEventChoose_phase: "doEventChoose (s\<lparr>phase := p\<rparr>) e eff ul = doEventChoose s e eff ul"
proof -
  define inter where "inter = (\<lambda>t::RunState.
      t\<lparr>resources := applyResourceEffects (resources t) eff,
        unlockedFootnotes := (case ul of Some u \<Rightarrow> setOrder (unlockedFootnotes t @ u)
                                       | None \<Rightarrow> unlockedFootnotes t),
        eventHistory := eventHistory t @ [e],
        currentEventId := None\<rparr>)"
  define finish where "finish = (\<lambda>t::RunState.
      if checkLoseCondition t \<noteq> None then t\<lparr>phase := ended, ending := Some collapse\<rparr>
      else if cycle t \<ge> maxCycles t then t\<lparr>phase := election\<rparr>
      else if checkLoseCondition (applyCycleEnd t) \<noteq> None
           then (applyCycleEnd t)\<lparr>phase := ended, ending := Some collapse\<rparr>
           else (applyCycleEnd t)\<lparr>phase := playing\<rparr>)"
  have d: "doEventChoose t e eff ul = finish (inter t)" for t
    unfolding doEventChoose_def Let_def inter_def finish_def by (rule refl)
  have i: "inter (s\<lparr>phase := p\<rparr>) = (inter s)\<lparr>phase := p\<rparr>"
    by (cases ul) (simp_all add: inter_def)
  have f: "finish (t\<lparr>phase := p\<rparr>) = finish t" for t
    by (simp add: finish_def applyCycleEnd_phase checkLoseCondition_phase)
  show ?thesis by (simp only: d i f)
qed

lemma doUnionLicense_phase: "doUnionLicense (s\<lparr>phase := p\<rparr>) i = (doUnionLicense s i)\<lparr>phase := p\<rparr>"
  by (simp add: doUnionLicense_def Let_def split_def split: option.splits)

lemma doUnionIncubate_phase:
  "doUnionIncubate (s\<lparr>phase := p\<rparr>) i m = (doUnionIncubate s i m)\<lparr>phase := p\<rparr>"
  by (simp add: doUnionIncubate_def Let_def split: option.splits)

lemma isInFederation_phase: "isInFederation (s\<lparr>phase := p\<rparr>) i = isInFederation s i"
  by (simp add: isInFederation_def)

lemma doUnionDissolve_phase: "doUnionDissolve (s\<lparr>phase := p\<rparr>) i = (doUnionDissolve s i)\<lparr>phase := p\<rparr>"
  by (simp add: doUnionDissolve_def isInFederation_phase Let_def split: option.splits)

lemma doUnionReassign_phase: "doUnionReassign (s\<lparr>phase := p\<rparr>) i = (doUnionReassign s i)\<lparr>phase := p\<rparr>"
  by (simp add: doUnionReassign_def isInFederation_phase Let_def split: option.splits)

lemma doUnionGenerate_phase:
  "doUnionGenerate w (s\<lparr>phase := p\<rparr>) n = withPhase p (doUnionGenerate w s n)"
  by (simp add: doUnionGenerate_def withPhase_def split: sum.splits)

lemma doFederationCreate_phase:
  "doFederationCreate w (s\<lparr>phase := p\<rparr>) ids = withPhase p (doFederationCreate w s ids)"
  by (simp add: doFederationCreate_def withPhase_def existingFederatedUnions_def Let_def
        split_def split: sum.splits)

lemma reducer_sets_phase:
  "setsPhase a \<Longrightarrow> gameReducer w (s\<lparr>phase := p\<rparr>) a = gameReducer w s a"
  by (cases a) (simp_all add: doTurnAdvance_phase doEventChoose_phase doElectionResolve_def
        split_def)

lemma reducer_carries_phase:
  "\<not> setsPhase a \<Longrightarrow> gameReducer w (s\<lparr>phase := p\<rparr>) a = withPhase p (gameReducer w s a)"
  by (cases a) (simp_all add: doUnionGenerate_phase doFederationCreate_phase
        doUnionLicense_phase doUnionIncubate_phase doUnionDissolve_phase doUnionReassign_phase
        withPhase_def)

lemma reducer_total: "\<exists>s2 w2. gameReducer w s a = Inr (s2, w2)"
proof (cases a)
  case (UNION_GENERATE n)
  show ?thesis
  proof (cases "paperwork (resources s) < 1 \<or> unionsGeneratedInCycle s")
    case True
    then show ?thesis using doUnionGenerate_reject [of s w n] UNION_GENERATE by simp
  next
    case False
    then show ?thesis using doUnionGenerate_accept [of s n w] UNION_GENERATE by auto
  qed
next
  case (FEDERATION_CREATE ids)
  show ?thesis
  proof (cases "canFederate s ids")
    case True
    then show ?thesis using doFederationCreate_accept [of s ids w] FEDERATION_CREATE by auto
  next
    case False
    then show ?thesis using doFederationCreate_reject [of s ids w] FEDERATION_CREATE by simp
  qed
qed (simp_all add: split_def Let_def)

lemma reducer_keeps_phase:
  assumes "\<not> setsPhase a"
  shows "resultPhase (gameReducer w s a) = Some (phase s)"
proof -
  obtain s2 w2 where r: "gameReducer w s a = Inr (s2, w2)" using reducer_total by blast
  have "gameReducer w (s\<lparr>phase := phase s\<rparr>) a = withPhase (phase s) (gameReducer w s a)"
    using assms by (rule reducer_carries_phase)
  then have "Inr (s2, w2) = (Inr (s2\<lparr>phase := phase s\<rparr>, w2) :: result)"
    by (simp add: r withPhase_def)
  then have "s2 = s2\<lparr>phase := phase s\<rparr>" by simp
  then have "phase s2 = phase s" by (metis RunState.select_convs(5) RunState.surjective RunState.update_convs(5))
  then show ?thesis by (simp add: resultPhase_def resultState_def r)
qed

lemma doTurnAdvance_phase_exact:
  "phase (doTurnAdvance s) =
     (if maxCycles s \<le> cycle s then election
      else if checkLoseCondition (applyCycleEnd s) \<noteq> None then ended
      else playing)"
  by (simp add: doTurnAdvance_def Let_def)

lemma doEventChoose_phase_exact:
  "phase (doEventChoose s e eff ul) =
     (if checkLoseCondition (afterChoice s e eff ul) \<noteq> None then ended
      else if maxCycles s \<le> cycle s then election
      else if checkLoseCondition (applyCycleEnd (afterChoice s e eff ul)) \<noteq> None then ended
      else playing)"
proof -
  have c: "cycle (afterChoice s e eff ul) = cycle s"
      "maxCycles (afterChoice s e eff ul) = maxCycles s"
    by (simp_all add: afterChoice_def)
  have "doEventChoose s e eff ul =
      (if checkLoseCondition (afterChoice s e eff ul) \<noteq> None
       then (afterChoice s e eff ul)\<lparr>phase := ended, ending := Some collapse\<rparr>
       else if cycle (afterChoice s e eff ul) \<ge> maxCycles (afterChoice s e eff ul)
       then (afterChoice s e eff ul)\<lparr>phase := election\<rparr>
       else if checkLoseCondition (applyCycleEnd (afterChoice s e eff ul)) \<noteq> None
            then (applyCycleEnd (afterChoice s e eff ul))\<lparr>phase := ended,
                                                             ending := Some collapse\<rparr>
            else (applyCycleEnd (afterChoice s e eff ul))\<lparr>phase := playing\<rparr>)"
    unfolding doEventChoose_def Let_def afterChoice_def by (rule refl)
  then show ?thesis by (simp add: c)
qed

lemma turn_phase:
  "resultPhase (gameReducer w s TURN_ADVANCE) =
       Some (if maxCycles s \<le> cycle s then election
             else if checkLoseCondition (applyCycleEnd s) \<noteq> None then ended
             else playing)"
proof -
  have "resultPhase (gameReducer w s TURN_ADVANCE) = Some (phase (doTurnAdvance s))"
    by (simp add: resultPhase_def resultState_def)
  then show ?thesis by (simp only: doTurnAdvance_phase_exact)
qed

lemma choose_phase:
  "resultPhase (gameReducer w s (EVENT_CHOOSE eventId choiceId effects unlocks)) =
       Some (if checkLoseCondition (afterChoice s eventId effects unlocks) \<noteq> None then ended
             else if maxCycles s \<le> cycle s then election
             else if checkLoseCondition (applyCycleEnd (afterChoice s eventId effects unlocks))
                       \<noteq> None
                  then ended
             else playing)"
proof -
  have "resultPhase (gameReducer w s (EVENT_CHOOSE eventId choiceId effects unlocks))
          = Some (phase (doEventChoose s eventId effects unlocks))"
    by (simp add: resultPhase_def resultState_def)
  then show ?thesis by (simp only: doEventChoose_phase_exact)
qed

text \<open>
  Claim C6. The reducer implements the strict phase machine: every action validates the
  phase and is rejected (state unchanged) in a phase where it is not a legal transition;
  in particular, from phase \<open>ended\<close> no action other than a full reset changes the state.

  As amended: the reducer never reads the phase, and \<open>ended\<close> is not terminal in it. The
  actions of \<open>setsPhase\<close> give the same result whatever the current phase is, and they
  write the phase: \<^verbatim>\<open>RUN_START\<close> playing, \<^verbatim>\<open>RUN_RESET\<close> menu, \<^verbatim>\<open>EVENT_DRAW\<close> event,
  \<^verbatim>\<open>EVENT_DISMISS\<close> playing, \<^verbatim>\<open>ELECTION_RESOLVE\<close> ended, \<^verbatim>\<open>SET_PHASE q\<close> the phase q;
  \<^verbatim>\<open>TURN_ADVANCE\<close> election when cycle \<ge> maxCycles, otherwise ended when the state after
  the cycle end meets a loss condition and playing when it does not; \<^verbatim>\<open>EVENT_CHOOSE\<close> ended
  when the state after the choice's effects meets a loss condition, otherwise as
  \<^verbatim>\<open>TURN_ADVANCE\<close> from that state. Every other action does in every phase what it does in
  any other and leaves the phase as it is.
\<close>

theorem C6_reducer_ignores_phase:
  "(setsPhase a \<longrightarrow> gameReducer w (s\<lparr>phase := p\<rparr>) a = gameReducer w s a)
   \<and> (\<not> setsPhase a \<longrightarrow>
        gameReducer w (s\<lparr>phase := p\<rparr>) a = withPhase p (gameReducer w s a)
        \<and> resultPhase (gameReducer w s a) = Some (phase s))
   \<and> resultPhase (gameReducer w s (RUN_START seedArg showTipsArg)) = Some playing
   \<and> resultPhase (gameReducer w s RUN_RESET) = Some menu
   \<and> resultPhase (gameReducer w s (EVENT_DRAW eventId)) = Some event
   \<and> resultPhase (gameReducer w s EVENT_DISMISS) = Some playing
   \<and> resultPhase (gameReducer w s ELECTION_RESOLVE) = Some ended
   \<and> resultPhase (gameReducer w s (SET_PHASE q)) = Some q
   \<and> resultPhase (gameReducer w s TURN_ADVANCE) =
       Some (if maxCycles s \<le> cycle s then election
             else if checkLoseCondition (applyCycleEnd s) \<noteq> None then ended
             else playing)
   \<and> resultPhase (gameReducer w s (EVENT_CHOOSE eventId choiceId effects unlocks)) =
       Some (if checkLoseCondition (afterChoice s eventId effects unlocks) \<noteq> None then ended
             else if maxCycles s \<le> cycle s then election
             else if checkLoseCondition (applyCycleEnd (afterChoice s eventId effects unlocks))
                       \<noteq> None
                  then ended
             else playing)"
proof -
  have f1: "setsPhase a \<longrightarrow> gameReducer w (s\<lparr>phase := p\<rparr>) a = gameReducer w s a"
    using reducer_sets_phase [where a = a and w = w and s = s and p = p] by blast
  have f2: "\<not> setsPhase a \<longrightarrow>
        gameReducer w (s\<lparr>phase := p\<rparr>) a = withPhase p (gameReducer w s a)
        \<and> resultPhase (gameReducer w s a) = Some (phase s)"
    using reducer_carries_phase [where a = a and w = w and s = s and p = p]
      reducer_keeps_phase [where a = a and w = w and s = s]
    by blast
  have f3: "resultPhase (gameReducer w s (RUN_START seedArg showTipsArg)) = Some playing"
    by (simp add: resultPhase_def resultState_def split_def Let_def)
  have f4: "resultPhase (gameReducer w s RUN_RESET) = Some menu"
    by (simp add: resultPhase_def resultState_def createInitialState_def split_def Let_def)
  have f5: "resultPhase (gameReducer w s (EVENT_DRAW eventId)) = Some event"
    by (simp add: resultPhase_def resultState_def)
  have f6: "resultPhase (gameReducer w s EVENT_DISMISS) = Some playing"
    by (simp add: resultPhase_def resultState_def)
  have f7: "resultPhase (gameReducer w s ELECTION_RESOLVE) = Some ended"
    by (simp add: resultPhase_def resultState_def doElectionResolve_def)
  have f8: "resultPhase (gameReducer w s (SET_PHASE q)) = Some q"
    by (simp add: resultPhase_def resultState_def)
  note f9 = turn_phase [of w s]
  note f10 = choose_phase [of w s eventId choiceId effects unlocks]
  show ?thesis
    by (rule conjI [OF f1 conjI [OF f2 conjI [OF f3 conjI [OF f4 conjI [OF f5
          conjI [OF f6 conjI [OF f7 conjI [OF f8 conjI [OF f9 f10]]]]]]]]])
qed

lemma endedState_turn: "doTurnAdvance endedState =
    endedState\<lparr>resources := \<lparr>paperwork = 6, patronage = 12, legitimacy = 70,
                                auditRisk = 10, streetHeat = 3\<rparr>,
               cycle := 2, phase := playing\<rparr>"
proof -
  have c: "crackLoop (unions endedState) (createRNG (rngCursor endedState)) 0 0
             = ([], 0, 0, createRNG (rngCursor endedState))"
    by (simp add: endedState_def baseState_def)
  have u: "calculateUpkeep endedState =
     \<lparr>eff_paperwork = Some 3, eff_patronage = Some 7, eff_legitimacy = Some 0,
      eff_auditRisk = Some 0, eff_streetHeat = Some (- 2)\<rparr>"
    by (simp add: calculateUpkeep_def endedState_def baseState_def DEFAULT_RESOURCES_def)
  have r: "resources endedState = DEFAULT_RESOURCES" "cycle endedState = 1"
    "maxCycles endedState = 5"
    by (simp_all add: endedState_def baseState_def)
  have a: "applyCycleEnd endedState =
     endedState\<lparr>unions := [],
                resources := \<lparr>paperwork = 6, patronage = 12, legitimacy = 70,
                              auditRisk = 10, streetHeat = 3\<rparr>,
                cycle := 2, unionsGeneratedInCycle := False\<rparr>"
    unfolding applyCycleEnd_def processCrackChecks_def c u
    by (simp add: r applyResourceEffects_def clamp_def noEffects_def orZero_def
          DEFAULT_RESOURCES_def)
  show ?thesis unfolding doTurnAdvance_def a
    by (simp add: r checkLoseCondition_def) (simp add: endedState_def baseState_def)
qed

text \<open>The claim as stated fails in a state of phase \<open>ended\<close>: three actions that are not a reset change it.\<close>

theorem C6_ended_not_terminal_counterexample:
  "phase endedState = ended
   \<and> gameReducer world0 endedState (SET_PHASE playing)
       = Inr (endedState\<lparr>phase := playing\<rparr>, world0)
   \<and> endedState\<lparr>phase := playing\<rparr> \<noteq> endedState
   \<and> resultPhase (gameReducer world0 endedState TURN_ADVANCE) = Some playing
   \<and> generatedIds (gameReducer world0 endedState (UNION_GENERATE 1))
       = [''union_1700000000000_1'']"
proof -
  have p: "phase endedState = ended" by (simp add: endedState_def)
  have "phase (endedState\<lparr>phase := playing\<rparr>) \<noteq> phase endedState" by (simp add: p)
  then have n: "endedState\<lparr>phase := playing\<rparr> \<noteq> endedState" by metis
  have b: "1 \<le> paperwork (resources endedState)" "\<not> unionsGeneratedInCycle endedState"
      "unions endedState = []"
    by (simp_all add: endedState_def baseState_def DEFAULT_RESOURCES_def)
  have g: "generatedIds (gameReducer world0 endedState (UNION_GENERATE 1))
              = [''union_1700000000000_1'']"
    using generate_one_ids [OF b, of world0] by (simp add: generateId_world0)
  have t: "resultPhase (gameReducer world0 endedState TURN_ADVANCE) = Some playing"
    by (simp add: resultPhase_def resultState_def endedState_turn)
  show ?thesis using p n g t by simp
qed

theorem C6_reducer_ignores_phase_witness:
  "setsPhase TURN_ADVANCE
   \<and> gameReducer world0 (endedState\<lparr>phase := menu\<rparr>) TURN_ADVANCE
       = gameReducer world0 endedState TURN_ADVANCE
   \<and> \<not> setsPhase (UNION_LICENSE ''union_1_1'')
   \<and> phase endedState = ended
   \<and> resultPhase (gameReducer world0 endedState (UNION_LICENSE ''union_1_1'')) = Some ended"
proof -
  have sp: "setsPhase TURN_ADVANCE" "\<not> setsPhase (UNION_LICENSE ''union_1_1'')" by simp_all
  have e: "phase endedState = ended" by (simp add: endedState_def)
  from C6_reducer_ignores_phase
      [where a = TURN_ADVANCE and w = world0 and s = endedState and p = menu] sp
  have t1: "gameReducer world0 (endedState\<lparr>phase := menu\<rparr>) TURN_ADVANCE
              = gameReducer world0 endedState TURN_ADVANCE"
    by blast
  from C6_reducer_ignores_phase
      [where a = "UNION_LICENSE ''union_1_1''" and w = world0 and s = endedState and p = menu] sp
  have "resultPhase (gameReducer world0 endedState (UNION_LICENSE ''union_1_1''))
          = Some (phase endedState)"
    by blast
  then have t2: "resultPhase (gameReducer world0 endedState (UNION_LICENSE ''union_1_1''))
                   = Some ended"
    by (simp only: e)
  show ?thesis using sp e t1 t2 by blast
qed

subsection \<open>Licence chance and crack risk (C7)\<close>

text \<open>
  Claim C7. For every union with plausibility in [0,100] and integrity in [0,100],
  \<^verbatim>\<open>getLicenseChance\<close> returns min(95, 30 + floor(plausibility * 0.6)), which lies in
  [30,95], and \<^verbatim>\<open>getCrackRisk\<close> returns max(5, 40 - floor(integrity * 0.35)), which lies in
  [5,40].
\<close>

theorem C7_license_chance_crack_risk:
  assumes "0 \<le> plausibility u" and "plausibility u \<le> 100"
      and "0 \<le> integrity u" and "integrity u \<le> 100"
  shows "getLicenseChance u = min 95 (30 + \<lfloor>real_of_int (plausibility u) * 0.6\<rfloor>)
       \<and> 30 \<le> getLicenseChance u \<and> getLicenseChance u \<le> 95
       \<and> getCrackRisk u = max 5 (40 - \<lfloor>real_of_int (integrity u) * 0.35\<rfloor>)
       \<and> 5 \<le> getCrackRisk u \<and> getCrackRisk u \<le> 40"
proof -
  have "0 \<le> plausibility u * 3 div 5" using assms(1) by simp
  moreover have "0 \<le> integrity u * 7 div 20" using assms(3) by simp
  ultimately show ?thesis
    unfolding getLicenseChance_def getCrackRisk_def floor_06 floor_035 by simp
qed

theorem C7_license_chance_crack_risk_witness:
  "0 \<le> plausibility (shellUnion ''union_1_1'') \<and> plausibility (shellUnion ''union_1_1'') \<le> 100
   \<and> 0 \<le> integrity (shellUnion ''union_1_1'') \<and> integrity (shellUnion ''union_1_1'') \<le> 100
   \<and> getLicenseChance (shellUnion ''union_1_1'') = 42
   \<and> getCrackRisk (shellUnion ''union_1_1'') = 37"
proof -
  have h: "0 \<le> plausibility (shellUnion ''union_1_1'')"
          "plausibility (shellUnion ''union_1_1'') \<le> 100"
          "0 \<le> integrity (shellUnion ''union_1_1'')"
          "integrity (shellUnion ''union_1_1'') \<le> 100"
    by (simp_all add: shellUnion_def)
  have v: "plausibility (shellUnion ''union_1_1'') = 20" "integrity (shellUnion ''union_1_1'') = 10"
    by (simp_all add: shellUnion_def)
  show ?thesis
    using C7_license_chance_crack_risk [OF h] by (simp add: v floor_06 floor_035)
qed

subsection \<open>One generation per cycle (C8)\<close>

lemma applyCycleEnd_flag: "\<not> unionsGeneratedInCycle (applyCycleEnd s)"
  by (simp add: applyCycleEnd_def Let_def split_def)

lemma applyCycleEnd_cycle: "cycle (applyCycleEnd s) = cycle s + 1"
  by (simp add: applyCycleEnd_def Let_def split_def)

lemma doTurnAdvance_flag:
  "unionsGeneratedInCycle (doTurnAdvance s)
     = (if cycleEnds s TURN_ADVANCE then False else unionsGeneratedInCycle s)"
  by (simp add: doTurnAdvance_def Let_def applyCycleEnd_flag)

lemma doEventChoose_flag:
  "unionsGeneratedInCycle (doEventChoose s e eff ul)
     = (if cycleEnds s (EVENT_CHOOSE e c eff ul) then False else unionsGeneratedInCycle s)"
proof -
  define inter where "inter =
      s\<lparr>resources := applyResourceEffects (resources s) eff,
        unlockedFootnotes := (case ul of Some u \<Rightarrow> setOrder (unlockedFootnotes s @ u)
                                       | None \<Rightarrow> unlockedFootnotes s),
        eventHistory := eventHistory s @ [e],
        currentEventId := None\<rparr>"
  have l: "checkLoseCondition inter
             = checkLoseCondition (s\<lparr>resources := applyResourceEffects (resources s) eff\<rparr>)"
    by (simp add: checkLoseCondition_def inter_def)
  have i: "cycle inter = cycle s" "maxCycles inter = maxCycles s"
      "unionsGeneratedInCycle inter = unionsGeneratedInCycle s"
    by (simp_all add: inter_def)
  have "doEventChoose s e eff ul =
      (if checkLoseCondition inter \<noteq> None then inter\<lparr>phase := ended, ending := Some collapse\<rparr>
       else if cycle inter \<ge> maxCycles inter then inter\<lparr>phase := election\<rparr>
       else if checkLoseCondition (applyCycleEnd inter) \<noteq> None
            then (applyCycleEnd inter)\<lparr>phase := ended, ending := Some collapse\<rparr>
            else (applyCycleEnd inter)\<lparr>phase := playing\<rparr>)"
    unfolding doEventChoose_def Let_def inter_def by (rule refl)
  then show ?thesis using l i by (auto simp add: applyCycleEnd_flag)
qed

lemma doUnionLicense_flag:
  "unionsGeneratedInCycle (doUnionLicense s i) = unionsGeneratedInCycle s"
  by (simp add: doUnionLicense_def Let_def split_def split: option.splits)

lemma doUnionIncubate_flag:
  "unionsGeneratedInCycle (doUnionIncubate s i m) = unionsGeneratedInCycle s"
  by (simp add: doUnionIncubate_def Let_def split: option.splits)

lemma doUnionDissolve_flag:
  "unionsGeneratedInCycle (doUnionDissolve s i) = unionsGeneratedInCycle s"
  by (simp add: doUnionDissolve_def Let_def split: option.splits)

lemma doUnionReassign_flag:
  "unionsGeneratedInCycle (doUnionReassign s i) = unionsGeneratedInCycle s"
  by (simp add: doUnionReassign_def Let_def split: option.splits)

lemma doFederationCreate_flag:
  "resultFlag (doFederationCreate w s ids) = Some (unionsGeneratedInCycle s)"
proof (cases "canFederate s ids")
  case True
  then show ?thesis using doFederationCreate_accept [of s ids w]
    by (auto simp add: resultFlag_def resultState_def)
next
  case False
  then show ?thesis using doFederationCreate_reject [of s ids w]
    by (simp add: resultFlag_def resultState_def)
qed

lemma generate_sets_flag:
  assumes "\<not> unionsGeneratedInCycle s" and "1 \<le> paperwork (resources s)"
  shows "resultFlag (gameReducer w s (UNION_GENERATE n)) = Some True"
  using doUnionGenerate_accept [OF assms(2) assms(1), of n w]
  by (auto simp add: resultFlag_def resultState_def)

lemma restart_clears_flag: "restartsRun a \<Longrightarrow> resultFlag (gameReducer w s a) = Some False"
  by (cases a)
     (simp_all add: resultFlag_def resultState_def createInitialState_def split_def Let_def)

lemma cycle_end_clears_flag: "cycleEnds s a \<Longrightarrow> resultFlag (gameReducer w s a) = Some False"
proof (cases a)
  case TURN_ADVANCE
  assume "cycleEnds s a"
  then show ?thesis using TURN_ADVANCE doTurnAdvance_flag [of s]
    by (simp add: resultFlag_def resultState_def)
next
  case (EVENT_CHOOSE e c eff ul)
  assume "cycleEnds s a"
  then show ?thesis using EVENT_CHOOSE doEventChoose_flag [of s e eff ul c]
    by (simp add: resultFlag_def resultState_def)
qed simp_all

lemma flag_stays_set:
  assumes "\<not> cycleEnds s a" and "\<not> restartsRun a" and "unionsGeneratedInCycle s"
  shows "resultFlag (gameReducer w s a) = Some True"
proof (cases a)
  case TURN_ADVANCE
  then show ?thesis using assms doTurnAdvance_flag [of s]
    by (simp add: resultFlag_def resultState_def)
next
  case (EVENT_CHOOSE e c eff ul)
  then show ?thesis using assms doEventChoose_flag [of s e eff ul c]
    by (simp add: resultFlag_def resultState_def)
next
  case (UNION_GENERATE n)
  then show ?thesis using assms doUnionGenerate_reject [of s w n]
    by (simp add: resultFlag_def resultState_def)
next
  case (FEDERATION_CREATE ids)
  then show ?thesis using assms doFederationCreate_flag [of w s ids] by simp
qed (use assms in \<open>simp_all add: resultFlag_def resultState_def doUnionLicense_flag
       doUnionIncubate_flag doUnionDissolve_flag doUnionReassign_flag doElectionResolve_def\<close>)

lemma doTurnAdvance_cycle:
  "cycle (doTurnAdvance s) = (if cycleEnds s TURN_ADVANCE then cycle s + 1 else cycle s)"
  by (simp add: doTurnAdvance_def Let_def applyCycleEnd_cycle)

lemma cleared_only_by_cycle_end:
  assumes "\<not> restartsRun a" and "unionsGeneratedInCycle s"
      and "resultFlag (gameReducer w s a) = Some False"
  shows "cycleEnds s a"
proof (rule ccontr)
  assume "\<not> cycleEnds s a"
  then have "resultFlag (gameReducer w s a) = Some True"
    using assms(1) assms(2) by (intro flag_stays_set)
  with assms(3) show False by simp
qed

text \<open>
  Claim C8. Within a single cycle, a second \<^verbatim>\<open>UNION_GENERATE\<close> (dispatched when the
  per-cycle generation flag is already set) returns the state completely unchanged: no
  unions are added and no paperwork is deducted; the flag is set by a successful generation
  and reset to false only by the cycle-end transition.

  With the flag set, \<^verbatim>\<open>UNION_GENERATE\<close> returns the state and the world (clock and id
  counter) untouched; a generation that passes the guard sets the flag; \<^verbatim>\<open>applyCycleEnd\<close>
  clears it, and so does every action that closes a cycle (\<open>cycleEnds\<close>); and within the
  run, that is for every action but \<^verbatim>\<open>RUN_START\<close> and \<^verbatim>\<open>RUN_RESET\<close>, which replace the whole
  state by the initial state of another run, a set flag is cleared by no other action.
\<close>

theorem C8_generation_throttle:
  "(unionsGeneratedInCycle s \<longrightarrow> gameReducer w s (UNION_GENERATE n) = Inr (s, w))
   \<and> (\<not> unionsGeneratedInCycle s \<and> 1 \<le> paperwork (resources s) \<longrightarrow>
        resultFlag (gameReducer w s (UNION_GENERATE n)) = Some True)
   \<and> \<not> unionsGeneratedInCycle (applyCycleEnd s)
   \<and> (cycleEnds s a \<longrightarrow> resultFlag (gameReducer w s a) = Some False)
   \<and> (\<not> restartsRun a \<and> unionsGeneratedInCycle s
        \<and> resultFlag (gameReducer w s a) = Some False \<longrightarrow> cycleEnds s a)
   \<and> (\<not> restartsRun a \<and> unionsGeneratedInCycle s \<and> \<not> cycleEnds s a \<longrightarrow>
        resultFlag (gameReducer w s a) = Some True)"
proof -
  have g1: "unionsGeneratedInCycle s \<longrightarrow> gameReducer w s (UNION_GENERATE n) = Inr (s, w)"
    using doUnionGenerate_reject [of s w n] by simp
  have g2: "\<not> unionsGeneratedInCycle s \<and> 1 \<le> paperwork (resources s) \<longrightarrow>
        resultFlag (gameReducer w s (UNION_GENERATE n)) = Some True"
    using generate_sets_flag [of s w n] by blast
  have g3: "\<not> unionsGeneratedInCycle (applyCycleEnd s)" by (rule applyCycleEnd_flag)
  have g4: "cycleEnds s a \<longrightarrow> resultFlag (gameReducer w s a) = Some False"
    using cycle_end_clears_flag [of s a w] by blast
  have g5: "\<not> restartsRun a \<and> unionsGeneratedInCycle s
        \<and> resultFlag (gameReducer w s a) = Some False \<longrightarrow> cycleEnds s a"
    using cleared_only_by_cycle_end [of a s w] by blast
  have g6: "\<not> restartsRun a \<and> unionsGeneratedInCycle s \<and> \<not> cycleEnds s a \<longrightarrow>
        resultFlag (gameReducer w s a) = Some True"
    using flag_stays_set [of s a w] by blast
  show ?thesis
    by (rule conjI [OF g1 conjI [OF g2 conjI [OF g3 conjI [OF g4 conjI [OF g5 g6]]]]])
qed

theorem C8_generation_throttle_witness:
  "unionsGeneratedInCycle generatedState
   \<and> gameReducer world0 generatedState (UNION_GENERATE 3) = Inr (generatedState, world0)
   \<and> \<not> unionsGeneratedInCycle baseState \<and> 1 \<le> paperwork (resources baseState)
   \<and> resultFlag (gameReducer world0 baseState (UNION_GENERATE 3)) = Some True
   \<and> \<not> restartsRun TURN_ADVANCE
   \<and> cycleEnds generatedState TURN_ADVANCE
   \<and> resultFlag (gameReducer world0 generatedState TURN_ADVANCE) = Some False
   \<and> \<not> restartsRun (UNION_LICENSE ''union_1_1'')
   \<and> \<not> cycleEnds generatedState (UNION_LICENSE ''union_1_1'')
   \<and> resultFlag (gameReducer world0 generatedState (UNION_LICENSE ''union_1_1'')) = Some True"
proof -
  have g: "unionsGeneratedInCycle generatedState" "cycleEnds generatedState TURN_ADVANCE"
      "\<not> cycleEnds generatedState (UNION_LICENSE ''union_1_1'')"
    by (simp_all add: generatedState_def licenseState_def baseState_def)
  have b: "\<not> unionsGeneratedInCycle baseState" "1 \<le> paperwork (resources baseState)"
    by (simp_all add: baseState_def DEFAULT_RESOURCES_def)
  have r: "\<not> restartsRun TURN_ADVANCE" "\<not> restartsRun (UNION_LICENSE ''union_1_1'')"
    by simp_all
  from C8_generation_throttle [of generatedState world0 3 TURN_ADVANCE] g
  have t1: "gameReducer world0 generatedState (UNION_GENERATE 3) = Inr (generatedState, world0)"
    and t2: "resultFlag (gameReducer world0 generatedState TURN_ADVANCE) = Some False"
    by blast+
  from C8_generation_throttle [of baseState world0 3 TURN_ADVANCE] b
  have t3: "resultFlag (gameReducer world0 baseState (UNION_GENERATE 3)) = Some True"
    by blast
  from C8_generation_throttle [of generatedState world0 3 "UNION_LICENSE ''union_1_1''"] g r
  have t4: "resultFlag (gameReducer world0 generatedState (UNION_LICENSE ''union_1_1''))
              = Some True"
    by blast
  show ?thesis using g b r t1 t2 t3 t4 by blast
qed

subsection \<open>A failed licence (C9)\<close>

text \<open>
  Claim C9. For every state and union id such that the union exists, is unlicensed and
  uncracked, and paperwork is at least 1: when the \<^verbatim>\<open>UNION_LICENSE\<close> roll exceeds the
  union's licence chance, the unions are unchanged, paperwork decreases by 1, auditRisk
  increases by 3 (clamped), the cursor advances by exactly the one roll, and every other
  field of the state is unchanged. The resources of the result are
  \<^verbatim>\<open>applyResourceEffects\<close> of the old ones; on resources within the bounds of the data model,
  as they are in every state the reducer above reaches (\<open>reachable_inBounds\<close>), this is
  paperwork - 1 and
  min 100 (auditRisk + 3), the other resources unchanged. The world (clock, id counter) is
  returned as it was.
\<close>

theorem C9_license_failure:
  assumes "map_of (unions s) unionId = Some u"
      and "\<not> isLicensed u" and "\<not> isCracked u"
      and "1 \<le> paperwork (resources s)"
      and "getLicenseChance u < fst (nextInt 1 100 (createRNG (rngCursor s)))"
  shows "gameReducer w s (UNION_LICENSE unionId) =
           Inr (s\<lparr>resources := applyResourceEffects (resources s)
                    (noEffects\<lparr>eff_paperwork := Some (- 1), eff_auditRisk := Some 3\<rparr>),
                  rngCursor := next_a (createRNG (rngCursor s))\<rparr>, w)
       \<and> (resourcesInBounds (resources s) \<longrightarrow>
            applyResourceEffects (resources s)
                (noEffects\<lparr>eff_paperwork := Some (- 1), eff_auditRisk := Some 3\<rparr>)
              = (resources s)\<lparr>paperwork := paperwork (resources s) - 1,
                               auditRisk := min 100 (auditRisk (resources s) + 3)\<rparr>)"
proof -
  obtain roll a1 where r: "nextInt 1 100 (createRNG (rngCursor s)) = (roll, a1)"
    by (cases "nextInt 1 100 (createRNG (rngCursor s))")
  have a1: "a1 = next_a (createRNG (rngCursor s))"
    using r nextInt_snd [of 1 100 "createRNG (rngCursor s)"] by simp
  have "\<not> roll \<le> getLicenseChance u" using assms(5) r by simp
  then have "doUnionLicense s unionId =
      s\<lparr>resources := applyResourceEffects (resources s)
            (noEffects\<lparr>eff_paperwork := Some (- 1), eff_auditRisk := Some 3\<rparr>),
        rngCursor := next_a (createRNG (rngCursor s))\<rparr>"
    using assms(1-4) r a1
    by (simp add: doUnionLicense_def COSTS_license_paperwork_def getCursor_def)
  moreover have "resourcesInBounds (resources s) \<longrightarrow>
            applyResourceEffects (resources s)
                (noEffects\<lparr>eff_paperwork := Some (- 1), eff_auditRisk := Some 3\<rparr>)
              = (resources s)\<lparr>paperwork := paperwork (resources s) - 1,
                               auditRisk := min 100 (auditRisk (resources s) + 3)\<rparr>"
    using assms(4)
    by (auto simp add: resourcesInBounds_def applyResourceEffects_def clamp_def noEffects_def
          orZero_def)
  ultimately show ?thesis by simp
qed

theorem C9_license_failure_witness:
  "gameReducer world0 licenseState (UNION_LICENSE ''union_1_1'') =
     Inr (licenseState\<lparr>resources := \<lparr>paperwork = 2, patronage = 5, legitimacy = 70,
                                        auditRisk = 13, streetHeat = 5\<rparr>,
                       rngCursor := 1831565855\<rparr>, world0)"
proof -
  have h1: "map_of (unions licenseState) ''union_1_1'' = Some (shellUnion ''union_1_1'')"
    by (simp add: licenseState_def baseState_def)
  have h2: "\<not> isLicensed (shellUnion ''union_1_1'')" by (simp add: shellUnion_def)
  have h3: "\<not> isCracked (shellUnion ''union_1_1'')" by (simp add: shellUnion_def)
  have h4: "1 \<le> paperwork (resources licenseState)"
    by (simp add: licenseState_def baseState_def DEFAULT_RESOURCES_def)
  have c: "rngCursor licenseState = 42" by (simp add: licenseState_def baseState_def)
  have h5: "getLicenseChance (shellUnion ''union_1_1'')
              < fst (nextInt 1 100 (createRNG (rngCursor licenseState)))"
    by (simp add: c roll_42 getLicenseChance_def shellUnion_def)
  have b: "resourcesInBounds (resources licenseState)"
    by (simp add: resourcesInBounds_def licenseState_def baseState_def DEFAULT_RESOURCES_def)
  have n: "next_a (createRNG (rngCursor licenseState)) = 1831565855"
    using nextInt_snd [of 1 100 "createRNG 42"] by (simp add: c roll_42)
  have r: "resources licenseState = DEFAULT_RESOURCES"
    by (simp add: licenseState_def baseState_def)
  show ?thesis
    using C9_license_failure [OF h1 h2 h3 h4 h5, of world0] b
    by (simp add: n r DEFAULT_RESOURCES_def)
qed

subsection \<open>The last cycle goes to the election without upkeep (C10)\<close>

text \<open>
  Claim C10. When \<^verbatim>\<open>EVENT_CHOOSE\<close> is processed in a state with cycle \<ge> maxCycles and the
  state after the choice's effects passes the loss check, and likewise when
  \<^verbatim>\<open>TURN_ADVANCE\<close> is processed with cycle \<ge> maxCycles, the reducer moves to phase
  \<open>election\<close> without upkeep or crack checks: the cycle counter, the unions, the cursor and
  (beyond the choice's direct effects) the resources are unchanged. The result is the input
  state with the fields named in the update changed and no other.
\<close>

theorem C10_election_without_upkeep:
  "(maxCycles s \<le> cycle s \<longrightarrow> gameReducer w s TURN_ADVANCE = Inr (s\<lparr>phase := election\<rparr>, w))
   \<and> (maxCycles s \<le> cycle s
        \<and> 0 < legitimacy (applyResourceEffects (resources s) effects)
        \<and> auditRisk (applyResourceEffects (resources s) effects) < 100
        \<and> streetHeat (applyResourceEffects (resources s) effects) < 100 \<longrightarrow>
      gameReducer w s (EVENT_CHOOSE eventId choiceId effects unlocks) =
        Inr (s\<lparr>resources := applyResourceEffects (resources s) effects,
               unlockedFootnotes :=
                 (case unlocks of Some ul \<Rightarrow> setOrder (unlockedFootnotes s @ ul)
                                | None \<Rightarrow> unlockedFootnotes s),
               eventHistory := eventHistory s @ [eventId],
               currentEventId := None,
               phase := election\<rparr>, w))"
  by (simp add: doTurnAdvance_def doEventChoose_def Let_def checkLoseCondition_def)

theorem C10_election_without_upkeep_witness:
  "maxCycles lastCycleState \<le> cycle lastCycleState
   \<and> gameReducer world0 lastCycleState TURN_ADVANCE =
       Inr (lastCycleState\<lparr>phase := election\<rparr>, world0)
   \<and> gameReducer world0 lastCycleState
         (EVENT_CHOOSE ''event_1'' ''choice_1'' (noEffects\<lparr>eff_legitimacy := Some (- 5)\<rparr>) None) =
       Inr (lastCycleState\<lparr>resources := \<lparr>paperwork = 3, patronage = 5, legitimacy = 65,
                                            auditRisk = 10, streetHeat = 5\<rparr>,
                           eventHistory := [''event_1''],
                           currentEventId := None,
                           phase := election\<rparr>, world0)"
proof -
  have c: "maxCycles lastCycleState \<le> cycle lastCycleState"
    by (simp add: lastCycleState_def licenseState_def baseState_def)
  have r: "applyResourceEffects (resources lastCycleState) (noEffects\<lparr>eff_legitimacy := Some (- 5)\<rparr>)
             = \<lparr>paperwork = 3, patronage = 5, legitimacy = 65, auditRisk = 10, streetHeat = 5\<rparr>"
    by (simp add: lastCycleState_def licenseState_def baseState_def DEFAULT_RESOURCES_def
          applyResourceEffects_def clamp_def noEffects_def orZero_def)
  have h: "eventHistory lastCycleState = []" "unlockedFootnotes lastCycleState = []"
    by (simp_all add: lastCycleState_def licenseState_def baseState_def)
  have p: "0 < legitimacy (applyResourceEffects (resources lastCycleState)
                             (noEffects\<lparr>eff_legitimacy := Some (- 5)\<rparr>))"
          "auditRisk (applyResourceEffects (resources lastCycleState)
                             (noEffects\<lparr>eff_legitimacy := Some (- 5)\<rparr>)) < 100"
          "streetHeat (applyResourceEffects (resources lastCycleState)
                             (noEffects\<lparr>eff_legitimacy := Some (- 5)\<rparr>)) < 100"
    by (simp_all add: r)
  show ?thesis
    using C10_election_without_upkeep
      [of lastCycleState world0 "noEffects\<lparr>eff_legitimacy := Some (- 5)\<rparr>"
          "''event_1''" "''choice_1''" None] c p
    by (simp add: r h)
qed

end
